theory Spec2Isabelle
  imports Main "HOL-Library.Word" "HOL-Library.Sublist" "HOL-Library.AList" "HOL-Library.Char_ord"
    "HOL-Library.List_Lexorder" "HOL-Library.Product_Lexorder"
begin

section \<open>Data model\<close>

text \<open>
  Bytes are 8-bit words; Go strings are byte strings, so \<open>string\<close> (a list of 8-bit
  characters) models them and \<open>length\<close> is Go's \<open>len\<close>.
\<close>

type_synonym byte = "8 word"
type_synonym path = string

text \<open>
  The file system, as far as the package touches it: a path names a regular file with its
  bytes, a directory, or nothing.
\<close>

datatype node = File "byte list" | Dir

type_synonym fs = "path \<Rightarrow> node option"

text \<open>
  The errors of the package. \<open>DownloadCancelledError\<close> keeps the source tag and the
  number of bytes written (the elapsed duration of the Go struct is wall-clock time and is
  left out). \<open>StatusCodeError\<close> is \<open>fmt.Errorf("Download failed: Status code %d")\<close>,
  \<open>ChecksumMismatch\<close> is \<open>fmt.Errorf("Download failed: Checksum mismatch")\<close>, and
  \<open>IOError\<close> stands for every error handed through from the operating system or the
  HTTP client.
\<close>

datatype error =
    DownloadCancelledError string int
  | StatusCodeError int
  | ChecksumMismatch
  | NotEnoughSpace
  | NotCacheable
  | EntryNotFound
  | IOError string

fun isCancelled :: "error \<Rightarrow> bool" where
  "isCancelled (DownloadCancelledError s n) = True"
| "isCancelled e = False"

record CachingInfoType =
  ETag :: string
  LastModified :: string

definition zeroCachingInfo :: CachingInfoType where
  "zeroCachingInfo = \<lparr>ETag = '''', LastModified = ''''\<rparr>"

definition isCacheable :: "CachingInfoType \<Rightarrow> bool" where
  "isCacheable c \<longleftrightarrow> ETag c \<noteq> '''' \<or> LastModified c \<noteq> ''''"

definition MAX_DOWNLOAD_ATTEMPTS :: nat where
  "MAX_DOWNLOAD_ATTEMPTS = 3"

section \<open>ETag as checksum (downloader.go, convertETagToChecksum)\<close>

text \<open>\<open>encoding/hex\<close>: one hex digit, in either case, to its value.\<close>

definition fromHexChar :: "char \<Rightarrow> nat option" where
  "fromHexChar c =
     (let n = (of_char c :: nat) in
      if 48 \<le> n \<and> n \<le> 57 then Some (n - 48)
      else if 97 \<le> n \<and> n \<le> 102 then Some (n - 97 + 10)
      else if 65 \<le> n \<and> n \<le> 70 then Some (n - 65 + 10)
      else None)"

text \<open>\<open>hex.DecodeString\<close>: pairs of digits to bytes; \<open>None\<close> is its error (an odd
  length or a character that is no hex digit).\<close>

fun DecodeString :: "string \<Rightarrow> byte list option" where
  "DecodeString [] = Some []"
| "DecodeString [c] = None"
| "DecodeString (a # b # r) =
     (case fromHexChar a of
        None \<Rightarrow> None
      | Some x \<Rightarrow>
          (case fromHexChar b of
             None \<Rightarrow> None
           | Some y \<Rightarrow>
               (case DecodeString r of
                  None \<Rightarrow> None
                | Some bs \<Rightarrow> Some (of_nat (x * 16 + y) # bs))))"

text \<open>\<open>strings.Trim(s, `"`)\<close>: every leading and trailing double quote is dropped.\<close>

definition Trim :: "string \<Rightarrow> char \<Rightarrow> string" where
  "Trim s q = rev (dropWhile (\<lambda>c. c = q) (rev (dropWhile (\<lambda>c. c = q) s)))"

definition dquote :: char where
  "dquote = CHR 0x22"

definition convertETagToChecksum :: "string \<Rightarrow> byte list \<times> bool" where
  "convertETagToChecksum etag =
     (let etag' = Trim etag dquote in
      if length etag' \<noteq> 32 then ([], False)
      else (case DecodeString etag' of
              None \<Rightarrow> ([], False)
            | Some c \<Rightarrow> (c, True)))"

section \<open>One fetch attempt (downloader.go, fetchToFile)\<close>

record response =
  StatusCode :: int
  HeaderETag :: string
  HeaderLastModified :: string
  Body :: "byte list"

text \<open>
  What the world outside the process does during one call of \<open>fetchToFile\<close>:
  whether \<open>http.NewRequest\<close> fails, what the origin answers to the request with the given
  conditional headers (or the transport error of \<open>client.Do\<close>), the random suffix the
  operating system gives the temporary file, whether \<open>Seek\<close> or \<open>Truncate\<close> fail,
  whether \<open>io.Copy\<close> breaks after some bytes, and whether the cancel channel is readable
  at the two places where the code polls it.
\<close>

record attempt =
  new_request_err :: "string option"
  do_outcome :: "(string \<times> string) list \<Rightarrow> string + response"
  cancel_at_do :: bool
  tmp_suffix :: string
  seek_err :: "string option"
  truncate_err :: "string option"
  copy_failure :: "(nat \<times> string) option"
  cancel_at_copy :: bool

text \<open>The conditional headers added to the GET request.\<close>

definition requestHeaders :: "CachingInfoType \<Rightarrow> (string \<times> string) list" where
  "requestHeaders cachingInfoIn =
     (if ETag cachingInfoIn \<noteq> '''' then [(''If-None-Match'', ETag cachingInfoIn)] else []) @
     (if LastModified cachingInfoIn \<noteq> ''''
      then [(''If-Modified-Since'', LastModified cachingInfoIn)] else [])"

type_synonym fetch_result = "path \<times> CachingInfoType \<times> error option"

definition failed :: "error \<Rightarrow> fetch_result" where
  "failed e = ('''', zeroCachingInfo, Some e)"

text \<open>
  \<open>createDestination\<close> is the caller's factory for the destination file; it gets the
  suffix of this attempt and returns the name of the file it opened. The deferred closure
  closes the file and, when \<open>err\<close> is set, removes it by name. \<open>md5\<close> is the digest of
  \<open>crypto/md5\<close>; the hasher is fed the same bytes as the file.
\<close>

definition fetchToFile ::
  "(byte list \<Rightarrow> byte list) \<Rightarrow> (string \<Rightarrow> fs \<Rightarrow> (error + path) \<times> fs) \<Rightarrow>
   CachingInfoType \<Rightarrow> attempt \<Rightarrow> fs \<Rightarrow> fetch_result \<times> fs" where
  "fetchToFile md5 createDestination cachingInfoIn a fs0 =
     (case new_request_err a of
        Some m \<Rightarrow> (failed (IOError m), fs0)
      | None \<Rightarrow>
     (case do_outcome a (requestHeaders cachingInfoIn) of
        Inl m \<Rightarrow>
          (failed (if cancel_at_do a then DownloadCancelledError ''fetch-request'' (- 1)
                   else IOError m), fs0)
      | Inr resp \<Rightarrow>
          if StatusCode resp = 304 then (('''', zeroCachingInfo, None), fs0)
          else if StatusCode resp \<noteq> 200 then (failed (StatusCodeError (StatusCode resp)), fs0)
          else
            (case createDestination (tmp_suffix a) fs0 of
               (Inl e, fs1) \<Rightarrow> (failed e, fs1)
             | (Inr name, fs1) \<Rightarrow>
            (case seek_err a of
               Some m \<Rightarrow> (failed (IOError m), fs1(name := None))
             | None \<Rightarrow>
            (case truncate_err a of
               Some m \<Rightarrow> (failed (IOError m), fs1(name := None))
             | None \<Rightarrow>
            (case copy_failure a of
               Some (written, m) \<Rightarrow>
                 (failed (if cancel_at_copy a
                          then DownloadCancelledError ''copy-body''
                                 (int (length (take written (Body resp))))
                          else IOError m),
                  (fs1(name \<mapsto> File (take written (Body resp))))(name := None))
             | None \<Rightarrow>
                 (let fs2 = fs1(name \<mapsto> File (Body resp));
                      cachingInfoOut = \<lparr>ETag = HeaderETag resp,
                                        LastModified = HeaderLastModified resp\<rparr>;
                      (etagChecksum, ok) = convertETagToChecksum (ETag cachingInfoOut)
                  in if ok \<and> etagChecksum \<noteq> md5 (Body resp)
                     then (failed ChecksumMismatch, fs2(name := None))
                     else ((name, cachingInfoOut, None), fs2))))))))"

text \<open>
  \<open>ioutil.TempFile(dir, prefix)\<close>, the factory \<open>populateCache\<close> passes: a new, empty
  file in \<open>dir\<close> (the system's temporary directory when \<open>dir\<close> is empty) whose name is
  the prefix followed by a random suffix. The file is opened with \<open>O_EXCL\<close>: the suffix
  is the one the call settles on, and a name that exists, or a directory that does not,
  is its error.
\<close>

definition TempFile :: "path \<Rightarrow> string \<Rightarrow> string \<Rightarrow> fs \<Rightarrow> (error + path) \<times> fs" where
  "TempFile dir pfx sfx fs0 =
     (let d = (if dir = '''' then ''/tmp'' else dir);
          name = d @ ''/'' @ pfx @ sfx
      in if fs0 d \<noteq> Some Dir then (Inl (IOError ''no such directory''), fs0)
         else if fs0 name \<noteq> None then (Inl (IOError ''file exists''), fs0)
         else (Inr name, fs0(name \<mapsto> File [])))"

section \<open>The retry loop (downloader.go, Download)\<close>

text \<open>
  The \<open>for\<close> loop of \<open>Download\<close>, from the value \<open>attempt\<close> of its counter: it returns
  the results of the calls of \<open>fetchToFile\<close> it made, in order, and the file system
  after them. \<open>env k\<close> is what the world does during the call made when the counter is \<open>k\<close>.
\<close>

function Download_loop ::
  "(byte list \<Rightarrow> byte list) \<Rightarrow> (string \<Rightarrow> fs \<Rightarrow> (error + path) \<times> fs) \<Rightarrow>
   CachingInfoType \<Rightarrow> (nat \<Rightarrow> attempt) \<Rightarrow> nat \<Rightarrow> fs \<Rightarrow> fetch_result list \<times> fs" where
  "Download_loop md5 createDestination cachingInfoIn env attempt fs0 =
     (if attempt < MAX_DOWNLOAD_ATTEMPTS then
        (case fetchToFile md5 createDestination cachingInfoIn (env attempt) fs0 of
           ((p, c, None), fs1) \<Rightarrow> ([(p, c, None)], fs1)
         | ((p, c, Some e), fs1) \<Rightarrow>
             if isCancelled e then ([(p, c, Some e)], fs1)
             else (case Download_loop md5 createDestination cachingInfoIn env (attempt + 1) fs1 of
                     (rs, fs2) \<Rightarrow> ((p, c, Some e) # rs, fs2)))
      else ([], fs0))"
  by pat_completeness auto
termination
  by (relation "measure (\<lambda>(md5, cd, ci, env, attempt, fs0). MAX_DOWNLOAD_ATTEMPTS - attempt)") auto

text \<open>An attempt after which the loop goes round again: an error that is no cancellation.\<close>

definition retried :: "fetch_result \<Rightarrow> bool" where
  "retried r = (case snd (snd r) of None \<Rightarrow> False | Some e \<Rightarrow> \<not> isCancelled e)"

text \<open>
  \<open>Download\<close>: the select on the concurrency barrier (\<open>barrier_cancelled\<close> says that the
  cancel branch was taken), the loop, and the final check of \<open>err\<close>. The named results
  hold what the last call of \<open>fetchToFile\<close> returned.
\<close>

record download_env =
  barrier_cancelled :: bool
  attempts :: "nat \<Rightarrow> attempt"

definition Download ::
  "(byte list \<Rightarrow> byte list) \<Rightarrow> (string \<Rightarrow> fs \<Rightarrow> (error + path) \<times> fs) \<Rightarrow>
   CachingInfoType \<Rightarrow> download_env \<Rightarrow> fs \<Rightarrow> fetch_result \<times> fs" where
  "Download md5 createDestination cachingInfoIn denv fs0 =
     (if barrier_cancelled denv
      then (failed (DownloadCancelledError ''download-barrier'' (- 1)), fs0)
      else
        (case Download_loop md5 createDestination cachingInfoIn (attempts denv) 0 fs0 of
           (rs, fs1) \<Rightarrow>
             (case (if rs = [] then ('''', zeroCachingInfo, None) else last rs) of
                (p, c, Some e) \<Rightarrow> (('''', zeroCachingInfo, Some e), fs1)
              | (p, c, None) \<Rightarrow> ((p, c, None), fs1))))"

section \<open>File system operations\<close>

text \<open>
  The map holds every file and directory under one name, its path without repeated or
  trailing slashes and without \<open>.\<close> and \<open>..\<close>; absolute and relative names are
  kept apart (the package never changes the working directory), and there are no
  symbolic links. The operating system receives a path as the caller wrote it and looks
  it up component by component, so the two calls of \<open>New\<close> first take their argument
  apart.
\<close>

definition isAbs :: "path \<Rightarrow> bool" where
  "isAbs p \<longleftrightarrow> (case p of [] \<Rightarrow> False | c # cs \<Rightarrow> c = CHR ''/'')"

text \<open>The components of a path: what stands between its slashes, empty pieces dropped.\<close>

function comps :: "path \<Rightarrow> string list" where
  "comps [] = []"
| "comps (c # cs) =
     (if c = CHR ''/'' then comps cs
      else (c # takeWhile (\<lambda>x. x \<noteq> CHR ''/'') cs) # comps (dropWhile (\<lambda>x. x \<noteq> CHR ''/'') cs))"
  by pat_completeness auto
termination
  by (relation "measure length") (auto simp: less_Suc_eq_le length_dropWhile_le)

text \<open>
  The name under which the map holds what the components \<open>cs\<close> lead to, from the root
  (\<open>ab\<close>) or from the working directory.
\<close>

definition joinPath :: "bool \<Rightarrow> string list \<Rightarrow> path" where
  "joinPath ab cs =
     (if cs = [] then (if ab then ''/'' else ''.'')
      else if ab then concat (map (\<lambda>c. CHR ''/'' # c) cs)
      else tl (concat (map (\<lambda>c. CHR ''/'' # c) cs)))"

text \<open>A path with its repeated and trailing slashes dropped.\<close>

definition cleanPath :: "path \<Rightarrow> path" where
  "cleanPath p = joinPath (isAbs p) (comps p)"

text \<open>
  \<open>inside p q\<close>: \<open>q\<close> names \<open>p\<close> or something in the tree under \<open>p\<close>, both
  absolute or both relative.
\<close>

definition inside :: "path \<Rightarrow> path \<Rightarrow> bool" where
  "inside p q \<longleftrightarrow> isAbs q = isAbs p \<and> prefix (comps p) (comps q)"

text \<open>
  The directory above the one that \<open>cur\<close> leads to: the root is its own parent, and
  above the working directory the names begin with \<open>..\<close>.
\<close>

definition parentOf :: "bool \<Rightarrow> string list \<Rightarrow> string list" where
  "parentOf ab cur =
     (if ab then butlast cur
      else if cur = [] \<or> last cur = ''..'' then cur @ [''..'']
      else butlast cur)"

text \<open>
  \<open>cur\<close> leads to a directory; the root, the working directory and the directories
  above it are there without an entry in the map.
\<close>

definition isDirAt :: "fs \<Rightarrow> bool \<Rightarrow> string list \<Rightarrow> bool" where
  "isDirAt fs0 ab cur \<longleftrightarrow>
     list_all (\<lambda>c. c = ''..'') cur \<or> fs0 (joinPath ab cur) = Some Dir"

text \<open>
  The lookup of the remaining components from \<open>cur\<close>: \<open>.\<close> and \<open>..\<close> are looked
  up in a directory that has to exist; \<open>None\<close> is the failed lookup.
\<close>

fun resolve :: "fs \<Rightarrow> bool \<Rightarrow> string list \<Rightarrow> string list \<Rightarrow> string list option" where
  "resolve fs0 ab cur [] = Some cur"
| "resolve fs0 ab cur (c # cs) =
     (if c = ''.'' then (if isDirAt fs0 ab cur then resolve fs0 ab cur cs else None)
      else if c = ''..''
        then (if isDirAt fs0 ab cur then resolve fs0 ab (parentOf ab cur) cs else None)
      else resolve fs0 ab (cur @ [c]) cs)"

text \<open>
  A path with a zero byte in it is refused by every system call. Limits on the length
  of names and permissions are not part of the model.
\<close>

definition hasNul :: "path \<Rightarrow> bool" where
  "hasNul p \<longleftrightarrow> CHR 0x00 \<in> set p"

text \<open>
  \<open>os.RemoveAll\<close>. The empty path is left alone without an error, and so are a path
  with a zero byte and one whose lookup fails. A path that ends in the component \<open>.\<close>
  is turned down by the library, which removes nothing; for the root and for a path that
  ends in \<open>..\<close> the contents go and the directory, which cannot be removed under that
  name, stays. Otherwise what the path leads to is removed with everything under it.
\<close>

definition RemoveAll :: "path \<Rightarrow> fs \<Rightarrow> fs" where
  "RemoveAll p fs0 =
     (if p = '''' \<or> hasNul p then fs0
      else
        (case resolve fs0 (isAbs p) [] (comps p) of
           None \<Rightarrow> fs0
         | Some cur \<Rightarrow>
             if comps p \<noteq> [] \<and> last (comps p) = ''.'' then fs0
             else if comps p = [] \<or> last (comps p) = ''..''
               then (\<lambda>q. if isAbs q = isAbs p \<and> strict_prefix cur (comps q) then None
                         else fs0 q)
             else (\<lambda>q. if isAbs q = isAbs p \<and> prefix cur (comps q) then None else fs0 q)))"

text \<open>
  The walk of \<open>os.MkdirAll\<close> along the components: a missing directory is made, one
  that exists is entered, \<open>..\<close> goes up, and a regular file in the way ends the walk
  with the error, what was made before staying in place.
\<close>

fun mkdirWalk :: "bool \<Rightarrow> string list \<Rightarrow> string list \<Rightarrow> fs \<Rightarrow> error option \<times> fs" where
  "mkdirWalk ab cur [] fs0 = (None, fs0)"
| "mkdirWalk ab cur (c # cs) fs0 =
     (if c = ''.'' then mkdirWalk ab cur cs fs0
      else if c = ''..'' then mkdirWalk ab (parentOf ab cur) cs fs0
      else
        (case fs0 (joinPath ab (cur @ [c])) of
           None \<Rightarrow> mkdirWalk ab (cur @ [c]) cs (fs0(joinPath ab (cur @ [c]) \<mapsto> Dir))
         | Some Dir \<Rightarrow> mkdirWalk ab (cur @ [c]) cs fs0
         | Some (File bs) \<Rightarrow> (Some (IOError ''not a directory''), fs0)))"

text \<open>
  \<open>os.MkdirAll\<close>: the directory and every missing directory on the way to it. The
  empty path and a path with a zero byte are its errors, and nothing is made.
\<close>

definition MkdirAll :: "path \<Rightarrow> fs \<Rightarrow> error option \<times> fs" where
  "MkdirAll p fs0 =
     (if p = '''' then (Some (IOError ''no such file or directory''), fs0)
      else if hasNul p then (Some (IOError ''invalid argument''), fs0)
      else mkdirWalk (isAbs p) [] (comps p) fs0)"

text \<open>\<open>beneath p q\<close>: \<open>q\<close> is \<open>p\<close> itself or lies in the tree under \<open>p\<close>.\<close>

definition beneath :: "path \<Rightarrow> path \<Rightarrow> bool" where
  "beneath p q \<longleftrightarrow> q = p \<or> prefix (p @ ''/'') q"

text \<open>\<open>os.Rename\<close> of a file or of a whole tree.\<close>

definition rename :: "path \<Rightarrow> path \<Rightarrow> fs \<Rightarrow> fs" where
  "rename src dst fs0 =
     (\<lambda>q. if q = dst then fs0 src
          else if prefix (dst @ ''/'') q then fs0 (src @ drop (length dst) q)
          else if beneath src q then None
          else fs0 q)"

section \<open>The file cache\<close>

text \<open>
  A read handle (\<open>CachedFile\<close>, made by \<open>NewFileCloser\<close>): the path it reads and what
  closing it does, either removing the file (\<open>tempFileRemoveOnClose\<close>) or giving the
  reference back to the cache.
\<close>

datatype close_hook = DeleteOnClose | ReleaseCached

record CachedFile =
  hPath :: path
  hook :: close_hook

record FileCacheEntry =
  Size :: int
  Access :: nat
  CachingInfo :: CachingInfoType
  FilePath :: path
  inuseCount :: nat

text \<open>
  Modelled from the spec: the type \<open>FileCache\<close> and its methods are in a file of the
  package that is not among the sources; sections 3, 4.1, 4.2 and 4.5 of the
  specification describe them. The index maps a fingerprint to its entry; \<open>OldEntries\<close>
  holds the generations that left the index while readers still hold them, with their
  reference counts; \<open>Seq\<close> numbers the generations (one counter for the cache, so every
  entry's generation grows and no name is used twice); \<open>Clock\<close> is the monotonic
  timestamp source.
\<close>

record FileCache =
  CachedPath :: path
  maxSizeInBytes :: int
  Entries :: "(string \<times> FileCacheEntry) list"
  OldEntries :: "(path \<times> nat) list"
  Seq :: nat
  Clock :: nat

record world =
  files :: fs
  cache :: FileCache

text \<open>Modelled from the spec: \<open>NewCache\<close> is missing; the index is rebuilt empty.\<close>

definition NewCache :: "path \<Rightarrow> int \<Rightarrow> FileCache" where
  "NewCache dir maxSize =
     \<lparr>CachedPath = dir, maxSizeInBytes = maxSize, Entries = [], OldEntries = [],
      Seq = 0, Clock = 0\<rparr>"

text \<open>
  Modelled from the spec: \<open>FileCache.Get\<close> is missing. A present entry gets its access
  time bumped and its reference count incremented, and a handle on its generation file
  is returned with the stored validator; an absent one gives no handle, the zero
  validator and \<open>EntryNotFound\<close>.
\<close>

definition cache_Get ::
  "string \<Rightarrow> world \<Rightarrow> (CachedFile option \<times> CachingInfoType \<times> error option) \<times> world" where
  "cache_Get fingerprint w =
     (let c = cache w in
      case map_of (Entries c) fingerprint of
        None \<Rightarrow> ((None, zeroCachingInfo, Some EntryNotFound), w)
      | Some e \<Rightarrow>
          ((Some \<lparr>hPath = FilePath e, hook = ReleaseCached\<rparr>, CachingInfo e, None),
           w\<lparr>cache := c\<lparr>Entries := AList.update fingerprint
                              (e\<lparr>Access := Clock c, inuseCount := inuseCount e + 1\<rparr>)
                              (Entries c),
                          Clock := Clock c + 1\<rparr>\<rparr>))"

text \<open>
  Modelled from the spec: the eviction policy of section 4.2. The candidates are the
  entries nobody holds, least recently used first, equal access times in the order of the
  fingerprints; \<open>pickVictims\<close> takes them in that order until \<open>needed\<close> bytes are
  free, and has no answer when they do not suffice.
\<close>

definition usedSpace :: "(string \<times> FileCacheEntry) list \<Rightarrow> int" where
  "usedSpace es = sum_list (map (\<lambda>(k, e). Size e) es)"

definition candidates :: "(string \<times> FileCacheEntry) list \<Rightarrow> (string \<times> FileCacheEntry) list" where
  "candidates es =
     sort_key (\<lambda>(k, e). (Access e, k)) (filter (\<lambda>(k, e). inuseCount e = 0) es)"

fun pickVictims :: "int \<Rightarrow> (string \<times> FileCacheEntry) list \<Rightarrow> (string \<times> FileCacheEntry) list option" where
  "pickVictims needed [] = (if needed \<le> 0 then Some [] else None)"
| "pickVictims needed ((k, e) # rest) =
     (if needed \<le> 0 then Some []
      else (case pickVictims (needed - Size e) rest of
              None \<Rightarrow> None
            | Some vs \<Rightarrow> Some ((k, e) # vs)))"

text \<open>The decimal digits of a number, as \<open>%d\<close> prints them.\<close>

fun showNat :: "nat \<Rightarrow> string" where
  "showNat n =
     (if n < 10 then [char_of (48 + n)]
      else showNat (n div 10) @ [char_of (48 + n mod 10)])"

text \<open>
  Modelled from the spec: \<open>FileCache.Add\<close> is missing. When the victims do not free
  enough room the answer is \<open>NotEnoughSpace\<close> and nothing changes. Otherwise the victims
  leave the index and the disk, the source is moved to
  \<open>CachedPath/<fingerprint>-<gen>\<close>, a replaced entry that readers still hold
  moves to \<open>OldEntries\<close> (its file is deleted when nobody holds it), and the new entry
  starts with reference count 1 for the handle that is returned.
\<close>

definition cache_Add ::
  "string \<Rightarrow> path \<Rightarrow> int \<Rightarrow> CachingInfoType \<Rightarrow> world \<Rightarrow>
   (CachedFile option \<times> error option) \<times> world" where
  "cache_Add fingerprint sourcePath size' cachingInfo w =
     (let c = cache w in
      case pickVictims (usedSpace (Entries c) + size' - maxSizeInBytes c)
             (candidates (Entries c)) of
        None \<Rightarrow> ((None, Some NotEnoughSpace), w)
      | Some victims \<Rightarrow>
          (let kept = filter (\<lambda>(k, e). k \<notin> set (map fst victims)) (Entries c);
               fs1 = fold (\<lambda>(k, e). RemoveAll (FilePath e)) victims (files w);
               dst = CachedPath c @ ''/'' @ fingerprint @ ''-'' @ showNat (Seq c + 1);
               old = map_of kept fingerprint;
               fs2 = (case old of
                        None \<Rightarrow> fs1
                      | Some e \<Rightarrow> if inuseCount e = 0 then RemoveAll (FilePath e) fs1 else fs1);
               olds = (case old of
                         None \<Rightarrow> OldEntries c
                       | Some e \<Rightarrow> if inuseCount e = 0 then OldEntries c
                                   else (FilePath e, inuseCount e) # OldEntries c);
               entry = \<lparr>Size = size', Access = Clock c, CachingInfo = cachingInfo,
                        FilePath = dst, inuseCount = 1\<rparr>
           in ((Some \<lparr>hPath = dst, hook = ReleaseCached\<rparr>, None),
               \<lparr>files = rename sourcePath dst fs2,
                cache = c\<lparr>Entries := AList.update fingerprint entry kept,
                          OldEntries := olds, Seq := Seq c + 1, Clock := Clock c + 1\<rparr>\<rparr>)))"

text \<open>
  Modelled from the spec: \<open>FileCache.Remove\<close> is missing. The entry leaves the index;
  its generation is deleted at once when nobody holds it and on the last close otherwise.
\<close>

definition cache_Remove :: "string \<Rightarrow> world \<Rightarrow> world" where
  "cache_Remove fingerprint w =
     (let c = cache w in
      case map_of (Entries c) fingerprint of
        None \<Rightarrow> w
      | Some e \<Rightarrow>
          \<lparr>files = (if inuseCount e = 0 then RemoveAll (FilePath e) (files w) else files w),
           cache = c\<lparr>Entries := AList.delete fingerprint (Entries c),
                     OldEntries := (if inuseCount e = 0 then OldEntries c
                                    else (FilePath e, inuseCount e) # OldEntries c)\<rparr>\<rparr>)"

text \<open>
  Modelled from the spec: the release hook of a cached handle (section 4.1) is missing.
  It decrements the reference count of the generation the path names; a generation
  that has left the index is deleted when the count reaches zero. \<open>None\<close> says that no
  generation has this path.
\<close>

definition releasePath :: "path \<Rightarrow> world \<Rightarrow> world option" where
  "releasePath p w =
     (let c = cache w in
      case find (\<lambda>(k, e). FilePath e = p) (Entries c) of
        Some (k, e) \<Rightarrow>
          Some (w\<lparr>cache := c\<lparr>Entries := AList.update k (e\<lparr>inuseCount := inuseCount e - 1\<rparr>)
                                         (Entries c)\<rparr>\<rparr>)
      | None \<Rightarrow>
          (case map_of (OldEntries c) p of
             None \<Rightarrow> None
           | Some n \<Rightarrow>
               if n \<le> 1
               then Some \<lparr>files = RemoveAll p (files w),
                          cache = c\<lparr>OldEntries := AList.delete p (OldEntries c)\<rparr>\<rparr>
               else Some (w\<lparr>cache := c\<lparr>OldEntries := AList.update p (n - 1) (OldEntries c)\<rparr>\<rparr>)))"

text \<open>\<open>CachedFile.Close\<close>: the hook of the handle runs on its path.\<close>

definition Close :: "CachedFile \<Rightarrow> world \<Rightarrow> world" where
  "Close h w =
     (case hook h of
        DeleteOnClose \<Rightarrow> w\<lparr>files := RemoveAll (hPath h) (files w)\<rparr>
      | ReleaseCached \<Rightarrow> (case releasePath (hPath h) w of None \<Rightarrow> w | Some w' \<Rightarrow> w'))"

text \<open>
  Modelled from the spec: \<open>GetDirectory\<close>, \<open>AddDirectory\<close> and
  \<open>FileCache.CloseDirectory\<close> are missing (section 4.5). They are the file operations
  on an entry whose generation is a directory: the path is returned in place of a handle,
  and only \<open>CloseDirectory\<close> gives the reference back.
\<close>

definition cache_GetDirectory ::
  "string \<Rightarrow> world \<Rightarrow> (path \<times> CachingInfoType \<times> error option) \<times> world" where
  "cache_GetDirectory fingerprint w =
     (case cache_Get fingerprint w of
        ((h, ci, err), w1) \<Rightarrow>
          (((case h of None \<Rightarrow> '''' | Some f \<Rightarrow> hPath f), ci, err), w1))"

definition cache_AddDirectory ::
  "string \<Rightarrow> path \<Rightarrow> int \<Rightarrow> CachingInfoType \<Rightarrow> world \<Rightarrow> (path \<times> error option) \<times> world" where
  "cache_AddDirectory fingerprint sourcePath size' cachingInfo w =
     (case cache_Add fingerprint sourcePath size' cachingInfo w of
        ((h, err), w1) \<Rightarrow> (((case h of None \<Rightarrow> '''' | Some f \<Rightarrow> hPath f), err), w1))"

definition cache_CloseDirectory :: "string \<Rightarrow> path \<Rightarrow> world \<Rightarrow> error option \<times> world" where
  "cache_CloseDirectory fingerprint dir w =
     (case releasePath dir w of None \<Rightarrow> (Some EntryNotFound, w) | Some w' \<Rightarrow> (None, w'))"

section \<open>The cached downloader\<close>

text \<open>
  \<open>CacheTransformer\<close>: from the downloaded file and the destination to the new size;
  it is free to read the source and to write the destination.
\<close>

type_synonym CacheTransformer = "path \<Rightarrow> path \<Rightarrow> fs \<Rightarrow> (error + int) \<times> fs"

text \<open>
  The struct \<open>cachedDownloader\<close>. Its cache is state and lives in the \<open>world\<close>; the
  lock and the map \<open>inProgress\<close> belong to the gate, modelled in its own section.
\<close>

record cachedDownloader =
  uncachedPath :: path
  transformer :: CacheTransformer

record download =
  d_path :: path
  d_size :: int
  d_cachingInfo :: CachingInfoType

definition zeroDownload :: download where
  "zeroDownload = \<lparr>d_path = '''', d_size = 0, d_cachingInfo = zeroCachingInfo\<rparr>"

text \<open>
  What the world does during one call of \<open>Fetch\<close> or \<open>FetchAsDirectory\<close>.
  \<open>acquireLimiter\<close> ends in one of two ways, with the limiter (after any number of
  waits) or with the cancellation error; which one is the schedule's choice,
  \<open>limiter_cancelled\<close>. The rest: the network during \<open>Download\<close>, the suffix of the
  second temporary file, and whether closing that file fails.
\<close>

record fetch_env =
  limiter_cancelled :: bool
  net :: download_env
  transformed_suffix :: string
  close_err :: "string option"

text \<open>
  Modelled from the spec: the constant \<open>NoBytesReceived\<close> is declared in a file that is
  missing; the bytes written are \<open>-1\<close> where they do not apply (section 5).
\<close>

definition NoBytesReceived :: int where
  "NoBytesReceived = - 1"

text \<open>\<open>os.Stat(p).Size()\<close>; only regular files are asked for their size.\<close>

definition Stat :: "path \<Rightarrow> fs \<Rightarrow> error + int" where
  "Stat p fs0 =
     (case fs0 p of
        None \<Rightarrow> Inl (IOError ''no such file'')
      | Some (File bs) \<Rightarrow> Inr (int (length bs))
      | Some Dir \<Rightarrow> Inr 0)"

text \<open>
  Modelled from the spec: the helper \<open>replace\<close> of \<open>NoopTransform\<close> is missing; the
  identity transformer moves the file and reports its size (section 6).
\<close>

definition NoopTransform :: CacheTransformer where
  "NoopTransform source destination fs0 =
     (if fs0 source = None then (Inl (IOError ''no such file''), fs0)
      else (let fs1 = rename source destination fs0 in
            case Stat destination fs1 of
              Inl e \<Rightarrow> (Inl e, fs1)
            | Inr n \<Rightarrow> (Inr n, fs1)))"

definition tempFileRemoveOnClose :: "path \<Rightarrow> fs \<Rightarrow> CachedFile option \<times> error option" where
  "tempFileRemoveOnClose p fs0 =
     (if fs0 p = None then (None, Some (IOError ''no such file''))
      else (Some \<lparr>hPath = p, hook = DeleteOnClose\<rparr>, None))"

definition populateCache ::
  "(byte list \<Rightarrow> byte list) \<Rightarrow> cachedDownloader \<Rightarrow> string \<Rightarrow> CachingInfoType \<Rightarrow>
   CacheTransformer \<Rightarrow> fetch_env \<Rightarrow> world \<Rightarrow> (download \<times> bool \<times> int \<times> error option) \<times> world" where
  "populateCache md5 c name cachingInfo transformer' env w =
     (case Download md5 (TempFile (uncachedPath c) (name @ ''-'')) cachingInfo (net env) (files w) of
        ((filename, cachingInfo', Some e), fs1) \<Rightarrow>
          ((zeroDownload, False, 0, Some e), w\<lparr>files := fs1\<rparr>)
      | ((filename, cachingInfo', None), fs1) \<Rightarrow>
          if filename = '''' then ((zeroDownload, True, 0, None), w\<lparr>files := fs1\<rparr>)
          else
            (case Stat filename fs1 of
               Inl e \<Rightarrow> ((zeroDownload, False, 0, Some e), w\<lparr>files := fs1\<rparr>)
             | Inr fileSize \<Rightarrow>
            (case TempFile (uncachedPath c) ''transformed'' (transformed_suffix env) fs1 of
               (Inl e, fs2) \<Rightarrow> ((zeroDownload, False, 0, Some e), w\<lparr>files := fs2\<rparr>)
             | (Inr cachedFile, fs2) \<Rightarrow>
            (case close_err env of
               Some m \<Rightarrow> ((zeroDownload, False, 0, Some (IOError m)), w\<lparr>files := fs2\<rparr>)
             | None \<Rightarrow>
            (case transformer' filename cachedFile fs2 of
               (Inl e, fs3) \<Rightarrow> ((zeroDownload, False, 0, Some e), w\<lparr>files := fs3\<rparr>)
             | (Inr cachedSize, fs3) \<Rightarrow>
                 ((\<lparr>d_path = cachedFile, d_size = cachedSize, d_cachingInfo = cachingInfo'\<rparr>,
                   False, fileSize, None), w\<lparr>files := fs3\<rparr>))))))"

definition fetchUncachedFile ::
  "(byte list \<Rightarrow> byte list) \<Rightarrow> cachedDownloader \<Rightarrow> CacheTransformer \<Rightarrow> fetch_env \<Rightarrow> world \<Rightarrow>
   (CachedFile option \<times> int \<times> error option) \<times> world" where
  "fetchUncachedFile md5 c transformer' env w =
     (case populateCache md5 c ''uncached'' zeroCachingInfo transformer' env w of
        ((dl, warm, size', Some e), w1) \<Rightarrow> ((None, 0, Some e), w1)
      | ((dl, warm, size', None), w1) \<Rightarrow>
          (case tempFileRemoveOnClose (d_path dl) (files w1) of
             (file, err) \<Rightarrow> ((file, size', err), w1)))"

text \<open>\<open>if currentReader != nil { currentReader.Close() }\<close>\<close>

definition closeReader :: "CachedFile option \<Rightarrow> world \<Rightarrow> world" where
  "closeReader r w = (case r of None \<Rightarrow> w | Some h \<Rightarrow> Close h w)"

definition fetchCachedFile ::
  "(byte list \<Rightarrow> byte list) \<Rightarrow> cachedDownloader \<Rightarrow> string \<Rightarrow> fetch_env \<Rightarrow> world \<Rightarrow>
   (CachedFile option \<times> int \<times> error option) \<times> world" where
  "fetchCachedFile md5 c cacheKey env w =
     (if limiter_cancelled env
      then ((None, 0, Some (DownloadCancelledError ''acquire-limiter'' NoBytesReceived)), w)
      else
        (case cache_Get cacheKey w of
           ((currentReader, currentCachingInfo, getErr), w1) \<Rightarrow>
        (case populateCache md5 c cacheKey currentCachingInfo (transformer c) env w1 of
           ((dl, cacheIsWarm, size', Some e), w2) \<Rightarrow>
             ((None, 0, Some e), closeReader currentReader w2)
         | ((dl, cacheIsWarm, size', None), w2) \<Rightarrow>
             if cacheIsWarm then ((currentReader, 0, getErr), w2)
             else
               (let w3 = closeReader currentReader w2 in
                if isCacheable (d_cachingInfo dl) then
                  (case cache_Add cacheKey (d_path dl) (d_size dl) (d_cachingInfo dl) w3 of
                     ((newReader, err), w4) \<Rightarrow>
                       if err = Some NotEnoughSpace then
                         (case tempFileRemoveOnClose (d_path dl) (files w4) of
                            (file, err') \<Rightarrow> ((file, size', err'), w4))
                       else ((newReader, size', err), w4))
                else
                  (let w4 = cache_Remove cacheKey w3 in
                   case tempFileRemoveOnClose (d_path dl) (files w4) of
                     (newReader, err) \<Rightarrow> ((newReader, size', err), w4))))))"

text \<open>The fingerprint: \<open>fmt.Sprintf("%x", md5.Sum([]byte(cacheKey)))\<close>.\<close>

definition hexDigit :: "nat \<Rightarrow> char" where
  "hexDigit n = ''0123456789abcdef'' ! n"

definition hexEncode :: "byte list \<Rightarrow> string" where
  "hexEncode bs = concat (map (\<lambda>b. [hexDigit (unat b div 16), hexDigit (unat b mod 16)]) bs)"

definition fingerprint :: "(byte list \<Rightarrow> byte list) \<Rightarrow> string \<Rightarrow> string" where
  "fingerprint md5 cacheKey = hexEncode (md5 (map (\<lambda>ch. of_nat (of_char ch)) cacheKey))"

definition Fetch ::
  "(byte list \<Rightarrow> byte list) \<Rightarrow> cachedDownloader \<Rightarrow> string \<Rightarrow> fetch_env \<Rightarrow> world \<Rightarrow>
   (CachedFile option \<times> int \<times> error option) \<times> world" where
  "Fetch md5 c cacheKey env w =
     (if cacheKey = '''' then fetchUncachedFile md5 c (transformer c) env w
      else fetchCachedFile md5 c (fingerprint md5 cacheKey) env w)"

text \<open>\<open>if currentDirectory != "" { c.cache.CloseDirectory(cacheKey, currentDirectory) }\<close>\<close>

definition closeDirectoryIf :: "string \<Rightarrow> path \<Rightarrow> world \<Rightarrow> world" where
  "closeDirectoryIf cacheKey dir w =
     (if dir \<noteq> '''' then snd (cache_CloseDirectory cacheKey dir w) else w)"

text \<open>
  \<open>TarTransform\<close>, the transformer of the directory fetch, is not among the sources; it
  is a parameter.
\<close>

definition fetchCachedDirectory ::
  "(byte list \<Rightarrow> byte list) \<Rightarrow> cachedDownloader \<Rightarrow> CacheTransformer \<Rightarrow> string \<Rightarrow> fetch_env \<Rightarrow>
   world \<Rightarrow> (path \<times> error option) \<times> world" where
  "fetchCachedDirectory md5 c TarTransform cacheKey env w =
     (if limiter_cancelled env
      then (('''', Some (DownloadCancelledError ''acquire-limiter'' NoBytesReceived)), w)
      else
        (case cache_GetDirectory cacheKey w of
           ((currentDirectory, currentCachingInfo, getErr), w1) \<Rightarrow>
        if getErr = Some NotEnoughSpace then (('''', getErr), w1)
        else
        (case populateCache md5 c cacheKey currentCachingInfo TarTransform env w1 of
           ((dl, cacheIsWarm, size', Some e), w2) \<Rightarrow>
             (('''', Some e), closeDirectoryIf cacheKey currentDirectory w2)
         | ((dl, cacheIsWarm, size', None), w2) \<Rightarrow>
             if cacheIsWarm then ((currentDirectory, getErr), w2)
             else
               (let w3 = closeDirectoryIf cacheKey currentDirectory w2 in
                if isCacheable (d_cachingInfo dl) then
                  (case cache_AddDirectory cacheKey (d_path dl) (d_size dl) (d_cachingInfo dl) w3 of
                     ((newDirectory, err), w4) \<Rightarrow>
                       if err = Some NotEnoughSpace then (('''', err), w4)
                       else ((newDirectory, err), w4))
                else (('''', Some NotCacheable), cache_Remove cacheKey w3)))))"

definition FetchAsDirectory ::
  "(byte list \<Rightarrow> byte list) \<Rightarrow> cachedDownloader \<Rightarrow> CacheTransformer \<Rightarrow> string \<Rightarrow> fetch_env \<Rightarrow>
   world \<Rightarrow> (path \<times> error option) \<times> world" where
  "FetchAsDirectory md5 c TarTransform cacheKey env w =
     fetchCachedDirectory md5 c TarTransform (fingerprint md5 cacheKey) env w"

definition CloseDirectory ::
  "(byte list \<Rightarrow> byte list) \<Rightarrow> string \<Rightarrow> path \<Rightarrow> world \<Rightarrow> error option \<times> world" where
  "CloseDirectory md5 cacheKey directoryPath w =
     cache_CloseDirectory (fingerprint md5 cacheKey) directoryPath w"

text \<open>
  \<open>New\<close>: the cache directory is removed with everything in it and made again (the
  errors of both calls are dropped), and the struct is filled in. The timeout, the
  number of concurrent downloads and the TLS flag configure the HTTP client and are not
  part of this state.
\<close>

definition New ::
  "path \<Rightarrow> path \<Rightarrow> int \<Rightarrow> CacheTransformer \<Rightarrow> fs \<Rightarrow> cachedDownloader \<times> world" where
  "New cachedPath uncachedPath' maxSize transformer' fs0 =
     (\<lparr>uncachedPath = uncachedPath', transformer = transformer'\<rparr>,
      \<lparr>files = snd (MkdirAll cachedPath (RemoveAll cachedPath fs0)),
       cache = NewCache cachedPath maxSize\<rparr>)"

section \<open>The per-key gate (acquireLimiter, releaseLimiter)\<close>

text \<open>
  Several callers run \<open>fetchCachedFile\<close> or \<open>fetchCachedDirectory\<close> at once. Every
  access to the map \<open>inProgress\<close> happens with \<open>c.lock\<close> held, so each locked region is
  one atomic step of the caller that runs it, and a run of the system is an interleaving
  of such steps. A caller is at one of these places:
  \<^item> \<open>Idle\<close>: outside the two functions;
  \<^item> \<open>Acquiring k\<close>: at the head of the loop of \<open>acquireLimiter\<close>;
  \<^item> \<open>Waiting k ch\<close>: in the \<open>select\<close>, on the channel it found in the map;
  \<^item> \<open>Probing k ch\<close>: back from \<open>acquireLimiter\<close> with its own channel, before the
    cache lookup;
  \<^item> \<open>Downloading k ch\<close>: in \<open>populateCache\<close>, the GET requests of \<open>Download\<close>;
  \<^item> \<open>Finishing k ch\<close>: after \<open>populateCache\<close>, up to the return.
  The deferred \<open>releaseLimiter\<close> runs at every return after the acquisition.
\<close>

datatype phase =
    Idle
  | Acquiring string
  | Waiting string nat
  | Probing string nat
  | Downloading string nat
  | Finishing string nat

record gate_state =
  inProgress :: "string \<Rightarrow> nat option"
  closed :: "nat set"
  next_chan :: nat
  phase :: "nat \<Rightarrow> phase"

definition gate_init :: gate_state where
  "gate_init = \<lparr>inProgress = Map.empty, closed = {}, next_chan = 0, phase = (\<lambda>t. Idle)\<rparr>"

text \<open>
  The steps of caller \<open>t\<close>. \<open>Try\<close> is the locked region of \<open>acquireLimiter\<close>: with no
  channel in the map for the key it makes one (\<open>next_chan\<close> names the channels in the
  order of their making), stores it and returns; otherwise it goes to wait on the one it
  read. \<open>Wake\<close> is the \<open>select\<close> receiving from the closed channel, after which the loop
  starts again; \<open>Cancel\<close> is its other branch. \<open>Release\<close> is \<open>releaseLimiter\<close>:
  the key is deleted from the map and the channel closed.
\<close>

datatype action =
    Call nat string
  | Try nat
  | Wake nat
  | Cancel nat
  | Probe nat
  | Downloaded nat
  | Release nat

definition set_phase :: "nat \<Rightarrow> phase \<Rightarrow> gate_state \<Rightarrow> gate_state" where
  "set_phase t p s = s\<lparr>phase := (phase s)(t := p)\<rparr>"

fun release :: "nat \<Rightarrow> string \<Rightarrow> nat \<Rightarrow> gate_state \<Rightarrow> gate_state" where
  "release t k ch s =
     s\<lparr>inProgress := (inProgress s)(k := None), closed := insert ch (closed s),
       phase := (phase s)(t := Idle)\<rparr>"

fun step :: "action \<Rightarrow> gate_state \<Rightarrow> gate_state option" where
  "step (Call t k) s =
     (case phase s t of Idle \<Rightarrow> Some (set_phase t (Acquiring k) s) | _ \<Rightarrow> None)"
| "step (Try t) s =
     (case phase s t of
        Acquiring k \<Rightarrow>
          (case inProgress s k of
             None \<Rightarrow>
               Some (s\<lparr>inProgress := (inProgress s)(k \<mapsto> next_chan s),
                       next_chan := next_chan s + 1,
                       phase := (phase s)(t := Probing k (next_chan s))\<rparr>)
           | Some ch \<Rightarrow> Some (set_phase t (Waiting k ch) s))
      | _ \<Rightarrow> None)"
| "step (Wake t) s =
     (case phase s t of
        Waiting k ch \<Rightarrow> if ch \<in> closed s then Some (set_phase t (Acquiring k) s) else None
      | _ \<Rightarrow> None)"
| "step (Cancel t) s =
     (case phase s t of Waiting k ch \<Rightarrow> Some (set_phase t Idle s) | _ \<Rightarrow> None)"
| "step (Probe t) s =
     (case phase s t of Probing k ch \<Rightarrow> Some (set_phase t (Downloading k ch) s) | _ \<Rightarrow> None)"
| "step (Downloaded t) s =
     (case phase s t of Downloading k ch \<Rightarrow> Some (set_phase t (Finishing k ch) s) | _ \<Rightarrow> None)"
| "step (Release t) s =
     (case phase s t of
        Probing k ch \<Rightarrow> Some (release t k ch s)
      | Downloading k ch \<Rightarrow> Some (release t k ch s)
      | Finishing k ch \<Rightarrow> Some (release t k ch s)
      | _ \<Rightarrow> None)"

text \<open>A schedule is run from a state; \<open>None\<close> when one of its steps is not enabled.\<close>

fun run :: "action list \<Rightarrow> gate_state \<Rightarrow> gate_state option" where
  "run [] s = Some s"
| "run (a # as) s = (case step a s of None \<Rightarrow> None | Some s' \<Rightarrow> run as s')"

text \<open>The caller holds the gate of key \<open>k\<close>.\<close>

fun holds :: "phase \<Rightarrow> string \<Rightarrow> bool" where
  "holds (Probing k' ch) k = (k' = k)"
| "holds (Downloading k' ch) k = (k' = k)"
| "holds (Finishing k' ch) k = (k' = k)"
| "holds p k = False"

fun downloading :: "phase \<Rightarrow> string \<Rightarrow> bool" where
  "downloading (Downloading k' ch) k = (k' = k)"
| "downloading p k = False"

fun waiting :: "phase \<Rightarrow> bool" where
  "waiting (Waiting k ch) = True"
| "waiting p = False"

fun probing :: "phase \<Rightarrow> string \<Rightarrow> bool" where
  "probing (Probing k' ch) k = (k' = k)"
| "probing p k = False"

section \<open>Predicates and sample inputs of the statements\<close>

text \<open>
  What \<open>convertETagToChecksum\<close> accepts after trimming: 32 hex digits in either case.
  The narrower reading, 32 digits out of \<open>0-9a-f\<close>, is \<open>isLowerMD5Hex\<close>.
\<close>

definition isHexDigit :: "char \<Rightarrow> bool" where
  "isHexDigit c \<longleftrightarrow> fromHexChar c \<noteq> None"

definition isLowerHexDigit :: "char \<Rightarrow> bool" where
  "isLowerHexDigit c \<longleftrightarrow>
     (let n = (of_char c :: nat) in (48 \<le> n \<and> n \<le> 57) \<or> (97 \<le> n \<and> n \<le> 102))"

definition isMD5Hex :: "string \<Rightarrow> bool" where
  "isMD5Hex s \<longleftrightarrow> length s = 32 \<and> list_all isHexDigit s"

definition isLowerMD5Hex :: "string \<Rightarrow> bool" where
  "isLowerMD5Hex s \<longleftrightarrow> length s = 32 \<and> list_all isLowerHexDigit s"

text \<open>The MD5 digest of the empty input, \<open>d41d8cd98f00b204e9800998ecf8427e\<close>.\<close>

definition md5_of_empty :: "byte list" where
  "md5_of_empty = [0xd4, 0x1d, 0x8c, 0xd9, 0x8f, 0x00, 0xb2, 0x04,
                   0xe9, 0x80, 0x09, 0x98, 0xec, 0xf8, 0x42, 0x7e]"

text \<open>An attempt in which nothing fails locally and the origin answers \<open>resp\<close>.\<close>

definition ok_attempt :: "response \<Rightarrow> attempt" where
  "ok_attempt resp =
     \<lparr>new_request_err = None, do_outcome = (\<lambda>hs. Inr resp), cancel_at_do = False,
      tmp_suffix = ''1'', seek_err = None, truncate_err = None, copy_failure = None,
      cancel_at_copy = False\<rparr>"

definition status_response :: "int \<Rightarrow> response" where
  "status_response n =
     \<lparr>StatusCode = n, HeaderETag = '''', HeaderLastModified = '''', Body = []\<rparr>"

text \<open>A 200 with an empty body whose ETag is 32 upper-case hex digits, not the digest.\<close>

definition upper_etag_response :: response where
  "upper_etag_response =
     \<lparr>StatusCode = 200, HeaderETag = ''D41D8CD98F00B204E9800998ECF8427F'',
      HeaderLastModified = '''', Body = []\<rparr>"

text \<open>A 200 with the body \<open>777\<close> and the ETag \<open>foo\<close>, and the same without validator.\<close>

definition foo_response :: response where
  "foo_response =
     \<lparr>StatusCode = 200, HeaderETag = ''foo'', HeaderLastModified = '''',
      Body = [55, 55, 55]\<rparr>"

definition plain_response :: response where
  "plain_response =
     \<lparr>StatusCode = 200, HeaderETag = '''', HeaderLastModified = '''',
      Body = [55, 55, 55]\<rparr>"

text \<open>A file system with the two directories \<open>/c\<close> and \<open>/u\<close> and nothing else.\<close>

definition fs_u :: fs where
  "fs_u = Map.empty(''/c'' \<mapsto> Dir, ''/u'' \<mapsto> Dir)"

text \<open>The origin fails with status 500 on the first attempt and answers afterwards.\<close>

definition retry_env :: "nat \<Rightarrow> attempt" where
  "retry_env k = (if k = 0 then ok_attempt (status_response 500) else ok_attempt foo_response)"

text \<open>
  The digest function of the sample runs. It maps every input to the digest of the empty
  input; the sample runs compare a digest only for the empty body.
\<close>

definition sample_md5 :: "byte list \<Rightarrow> byte list" where
  "sample_md5 bs = md5_of_empty"

text \<open>
  Three attempts that each make the temporary file and then fail: a checksum mismatch
  first, then a copy that breaks after two bytes.
\<close>

definition broken_env :: download_env where
  "broken_env =
     \<lparr>barrier_cancelled = False,
      attempts = (\<lambda>k. if k = 0 then ok_attempt upper_etag_response
                      else (ok_attempt foo_response)\<lparr>copy_failure := Some (2, ''reset'')\<rparr>)\<rparr>"

text \<open>A 200 with an empty body and its digest, in lower case and quoted, as ETag.\<close>

definition digest_etag_response :: response where
  "digest_etag_response =
     \<lparr>StatusCode = 200,
      HeaderETag = CHR 0x22 # ''d41d8cd98f00b204e9800998ecf8427e'' @ [CHR 0x22],
      HeaderLastModified = '''', Body = []\<rparr>"

text \<open>
  Sample runs of the coordinator: the downloader with the identity transformer and the
  uncached directory \<open>/u\<close>; a world in which nothing fails locally and the origin
  answers every request with \<open>resp\<close>; a cache in \<open>/c\<close> with a budget of 1024 bytes
  that is empty, and one that holds the entry of the key \<open>k\<close> (whose fingerprint under
  \<open>sample_md5\<close> is the digest of the empty input) with the validator \<open>foo\<close>.
\<close>

definition sample_downloader :: cachedDownloader where
  "sample_downloader = \<lparr>uncachedPath = ''/u'', transformer = NoopTransform\<rparr>"

definition sample_env :: "response \<Rightarrow> fetch_env" where
  "sample_env resp =
     \<lparr>limiter_cancelled = False,
      net = \<lparr>barrier_cancelled = False, attempts = (\<lambda>k. ok_attempt resp)\<rparr>,
      transformed_suffix = ''2'', close_err = None\<rparr>"

definition empty_world :: "int \<Rightarrow> world" where
  "empty_world budget = \<lparr>files = fs_u, cache = NewCache ''/c'' budget\<rparr>"

definition warm_entry :: FileCacheEntry where
  "warm_entry =
     \<lparr>Size = 3, Access = 0, CachingInfo = \<lparr>ETag = ''foo'', LastModified = ''''\<rparr>,
      FilePath = ''/c/d41d8cd98f00b204e9800998ecf8427e-1'', inuseCount = 0\<rparr>"

definition warm_world :: world where
  "warm_world =
     \<lparr>files = fs_u(''/c/d41d8cd98f00b204e9800998ecf8427e-1'' \<mapsto> File [55, 55, 55]),
      cache = \<lparr>CachedPath = ''/c'', maxSizeInBytes = 1024,
               Entries = [(''d41d8cd98f00b204e9800998ecf8427e'', warm_entry)],
               OldEntries = [], Seq = 1, Clock = 1\<rparr>\<rparr>"

text \<open>A transformer that writes the source twice to the destination and removes it.\<close>

definition doubling_transform :: CacheTransformer where
  "doubling_transform source destination fs0 =
     (case fs0 source of
        Some (File bs) \<Rightarrow>
          (Inr (int (length (bs @ bs))), (fs0(destination \<mapsto> File (bs @ bs)))(source := None))
      | _ \<Rightarrow> (Inl (IOError ''no such file''), fs0))"

definition doubling_downloader :: cachedDownloader where
  "doubling_downloader = \<lparr>uncachedPath = ''/u'', transformer = doubling_transform\<rparr>"

text \<open>A path that names a regular file.\<close>

definition isRegular :: "node option \<Rightarrow> bool" where
  "isRegular n = (case n of Some (File bs) \<Rightarrow> True | _ \<Rightarrow> False)"

text \<open>
  The names of the directories that the walk of \<open>os.MkdirAll\<close> passes from \<open>cur\<close>
  along components without \<open>.\<close> and \<open>..\<close>, the last one being the directory asked
  for; and the names of the directories above a path.
\<close>

fun dirsTo :: "bool \<Rightarrow> string list \<Rightarrow> string list \<Rightarrow> path list" where
  "dirsTo ab cur [] = []"
| "dirsTo ab cur (c # cs) = joinPath ab (cur @ [c]) # dirsTo ab (cur @ [c]) cs"

definition dirsAbove :: "path \<Rightarrow> path list" where
  "dirsAbove p = butlast (dirsTo (isAbs p) [] (comps p))"

text \<open>A path none of whose components is \<open>.\<close> or \<open>..\<close>.\<close>

definition noDots :: "path \<Rightarrow> bool" where
  "noDots p \<longleftrightarrow> list_all (\<lambda>c. c \<noteq> ''.'' \<and> c \<noteq> ''..'') (comps p)"

text \<open>
  A file system in which both the cache directory \<open>/var/c\<close> and the uncached directory
  \<open>/u\<close> hold a file from an earlier run.
\<close>

definition stale_fs :: fs where
  "stale_fs =
     Map.empty(''/var'' \<mapsto> Dir, ''/var/c'' \<mapsto> Dir, ''/var/c/old'' \<mapsto> File [1],
               ''/u'' \<mapsto> Dir, ''/u/stale'' \<mapsto> File [2])"

text \<open>
  The key and the channel of a caller that is between its return from
  \<open>acquireLimiter\<close> and its \<open>releaseLimiter\<close>.
\<close>

fun held :: "phase \<Rightarrow> (string \<times> nat) option" where
  "held (Probing k ch) = Some (k, ch)"
| "held (Downloading k ch) = Some (k, ch)"
| "held (Finishing k ch) = Some (k, ch)"
| "held p = None"

text \<open>
  The invariant of the gate: the channel of a caller that holds the gate of a key is
  the one the map has for the key, and no two callers hold the gate of one key.
\<close>

definition gate_inv :: "gate_state \<Rightarrow> bool" where
  "gate_inv s \<longleftrightarrow>
     (\<forall>t k ch. held (phase s t) = Some (k, ch) \<longrightarrow> inProgress s k = Some ch) \<and>
     (\<forall>t t' k. holds (phase s t) k \<and> holds (phase s t') k \<longrightarrow> t = t')"

text \<open>
  Two callers race for the key \<open>k\<close>: caller 0 gets the gate, caller 1 finds its channel
  and waits; caller 0 probes, downloads and releases; caller 1 wakes, tries again, gets
  the gate, probes and starts its own download.
\<close>

definition race :: "action list" where
  "race = [Call 0 ''k'', Call 1 ''k'', Try 0, Try 1, Probe 0, Downloaded 0, Release 0,
           Wake 1, Try 1, Probe 1]"

section \<open>Properties of the downloader\<close>

declare Download_loop.simps [simp del]

lemma Download_loop_shape:
  "Download_loop md5 cd ci env k fs0 = (rs, fs1) \<Longrightarrow>
     length rs \<le> MAX_DOWNLOAD_ATTEMPTS - k \<and> (k < MAX_DOWNLOAD_ATTEMPTS \<longrightarrow> rs \<noteq> []) \<and>
     (k < MAX_DOWNLOAD_ATTEMPTS \<longrightarrow> hd rs = fst (fetchToFile md5 cd ci (env k) fs0)) \<and>
     (\<forall>i. Suc i < length rs \<longrightarrow> retried (rs ! i)) \<and>
     (k + length rs < MAX_DOWNLOAD_ATTEMPTS \<longrightarrow> \<not> retried (last rs))"
proof (induction md5 cd ci env k fs0 arbitrary: rs fs1 rule: Download_loop.induct)
  case (1 md5 cd ci env k fs0)
  show ?case
  proof (cases "k < MAX_DOWNLOAD_ATTEMPTS")
    case False
    with "1.prems" show ?thesis by (simp add: Download_loop.simps[of _ _ _ _ k])
  next
    case True
    obtain p c eo fsa where f: "fetchToFile md5 cd ci (env k) fs0 = ((p, c, eo), fsa)"
      by (metis prod_cases3 surj_pair)
    show ?thesis
    proof (cases eo)
      case None
      with True f "1.prems" show ?thesis
        by (auto simp: Download_loop.simps[of _ _ _ _ k] retried_def)
    next
      case (Some e)
      show ?thesis
      proof (cases "isCancelled e")
        case True
        with \<open>k < MAX_DOWNLOAD_ATTEMPTS\<close> f Some "1.prems" show ?thesis
          by (auto simp: Download_loop.simps[of _ _ _ _ k] retried_def)
      next
        case False
        obtain rs' fsb where r: "Download_loop md5 cd ci env (k + 1) fsa = (rs', fsb)"
          by (meson surj_pair)
        from "1.IH"[OF True f[symmetric] refl refl Some False r]
        have ih: "length rs' \<le> MAX_DOWNLOAD_ATTEMPTS - (k + 1)"
          "k + 1 < MAX_DOWNLOAD_ATTEMPTS \<longrightarrow> rs' \<noteq> []"
          "\<forall>i. Suc i < length rs' \<longrightarrow> retried (rs' ! i)"
          "k + 1 + length rs' < MAX_DOWNLOAD_ATTEMPTS \<longrightarrow> \<not> retried (last rs')"
          by auto
        from \<open>k < MAX_DOWNLOAD_ATTEMPTS\<close> f Some False r "1.prems"
        have rs: "rs = (p, c, Some e) # rs'"
          by (auto simp: Download_loop.simps[of _ _ _ _ k])
        have hd: "retried (p, c, Some e)" using False by (simp add: retried_def)
        show ?thesis
          using ih rs hd f Some \<open>k < MAX_DOWNLOAD_ATTEMPTS\<close>
          by (auto simp: nth_Cons' less_Suc_eq_0_disj)
      qed
    qed
  qed
qed

text \<open>
  C2. The trace \<open>rs\<close> of the calls of \<open>fetchToFile\<close> that \<open>Download\<close> makes has between
  one and \<open>MAX_DOWNLOAD_ATTEMPTS = 3\<close> elements and starts with the attempt on the
  initial state. Every attempt but the last returned an error that is no cancellation,
  so the loop stopped at the first success and at the first cancellation; an attempt
  with such an error that is not the third one is followed by another attempt; and
  \<open>Download\<close> returns what the last attempt returned.
\<close>

theorem Download_retries:
  assumes "Download_loop md5 cd ci env 0 fs0 = (rs, fs1)"
  shows "rs \<noteq> [] \<and> length rs \<le> MAX_DOWNLOAD_ATTEMPTS \<and> MAX_DOWNLOAD_ATTEMPTS = 3 \<and>
         hd rs = fst (fetchToFile md5 cd ci (env 0) fs0) \<and>
         (\<forall>i. Suc i < length rs \<longrightarrow> retried (rs ! i)) \<and>
         (\<forall>i. i < length rs \<and> retried (rs ! i) \<and> Suc i < MAX_DOWNLOAD_ATTEMPTS
               \<longrightarrow> Suc i < length rs) \<and>
         fst (Download md5 cd ci \<lparr>barrier_cancelled = False, attempts = env\<rparr> fs0) =
           (case snd (snd (last rs)) of None \<Rightarrow> last rs | Some e \<Rightarrow> failed e)"
proof -
  from Download_loop_shape[OF assms]
  have s: "length rs \<le> MAX_DOWNLOAD_ATTEMPTS" "rs \<noteq> []"
    "hd rs = fst (fetchToFile md5 cd ci (env 0) fs0)"
    "\<forall>i. Suc i < length rs \<longrightarrow> retried (rs ! i)"
    "length rs < MAX_DOWNLOAD_ATTEMPTS \<longrightarrow> \<not> retried (last rs)"
    by (auto simp: MAX_DOWNLOAD_ATTEMPTS_def)
  have next_attempt: "Suc i < length rs"
    if "i < length rs" "retried (rs ! i)" "Suc i < MAX_DOWNLOAD_ATTEMPTS" for i
  proof (rule ccontr)
    assume "\<not> Suc i < length rs"
    with that have "i = length rs - 1" "length rs < MAX_DOWNLOAD_ATTEMPTS" by auto
    with s(2,5) that(2) show False by (simp add: last_conv_nth)
  qed
  have d: "fst (Download md5 cd ci \<lparr>barrier_cancelled = False, attempts = env\<rparr> fs0) =
           (case snd (snd (last rs)) of None \<Rightarrow> last rs | Some e \<Rightarrow> failed e)"
    using assms s(2) by (auto simp: Download_def failed_def split: prod.splits option.splits)
  show ?thesis using s next_attempt d by (simp add: MAX_DOWNLOAD_ATTEMPTS_def)
qed

lemma retry_env_run:
  "Download_loop sample_md5 (TempFile ''/u'' ''k-'') zeroCachingInfo retry_env 0 fs_u =
     ([failed (StatusCodeError 500), (''/u/k-1'', \<lparr>ETag = ''foo'', LastModified = ''''\<rparr>, None)],
      fs_u(''/u/k-1'' \<mapsto> File [55, 55, 55]))"
  by (simp add: Download_loop.simps[of _ _ _ _ 0] Download_loop.simps[of _ _ _ _ "Suc 0"]
        MAX_DOWNLOAD_ATTEMPTS_def retry_env_def ok_attempt_def status_response_def
        foo_response_def fetchToFile_def failed_def TempFile_def fs_u_def Let_def
        convertETagToChecksum_def Trim_def dquote_def)

theorem Download_retries_witness:
  "Download_loop sample_md5 (TempFile ''/u'' ''k-'') zeroCachingInfo retry_env 0 fs_u =
     ([failed (StatusCodeError 500), (''/u/k-1'', \<lparr>ETag = ''foo'', LastModified = ''''\<rparr>, None)],
      fs_u(''/u/k-1'' \<mapsto> File [55, 55, 55])) \<and>
   retried (failed (StatusCodeError 500)) \<and>
   fst (Download sample_md5 (TempFile ''/u'' ''k-'') zeroCachingInfo
          \<lparr>barrier_cancelled = False, attempts = retry_env\<rparr> fs_u) =
     (''/u/k-1'', \<lparr>ETag = ''foo'', LastModified = ''''\<rparr>, None)"
proof -
  let ?ok = "(''/u/k-1'', \<lparr>ETag = ''foo'', LastModified = ''''\<rparr>, None) :: fetch_result"
  let ?rs = "[failed (StatusCodeError 500), ?ok]"
  note r = retry_env_run
  have a: "\<forall>i. Suc i < length ?rs \<longrightarrow> retried (?rs ! i)"
    and d: "fst (Download sample_md5 (TempFile ''/u'' ''k-'') zeroCachingInfo
                   \<lparr>barrier_cancelled = False, attempts = retry_env\<rparr> fs_u) =
              (case snd (snd (last ?rs)) of None \<Rightarrow> last ?rs | Some e \<Rightarrow> failed e)"
    using Download_retries[OF r] by blast+
  from a[rule_format, of 0] have "retried (failed (StatusCodeError 500))" by simp
  with r d show ?thesis by simp
qed

lemma TempFile_cases:
  "TempFile dir pfx sfx fs0 = (r, fs1) \<Longrightarrow>
     (\<exists>e. r = Inl e \<and> fs1 = fs0) \<or>
     (\<exists>name. r = Inr name \<and> name \<noteq> '''' \<and> fs0 name = None \<and> fs1 = fs0(name \<mapsto> File []))"
  by (auto simp: TempFile_def Let_def split: if_splits)

lemma fun_upd_restore: "f x = None \<Longrightarrow> (f(x \<mapsto> y))(x := None) = f"
  by (rule ext) simp

lemma fetchToFile_TempFile:
  assumes "fetchToFile md5 (TempFile dir pfx) ci a fs0 = ((p, c, eo), fs1)"
  shows "(p = '''' \<and> c = zeroCachingInfo \<and> fs1 = fs0) \<or>
         (eo = None \<and> p \<noteq> '''' \<and> fs0 p = None \<and>
          (\<exists>resp. do_outcome a (requestHeaders ci) = Inr resp \<and> StatusCode resp = 200 \<and>
             c = \<lparr>ETag = HeaderETag resp, LastModified = HeaderLastModified resp\<rparr> \<and>
             fs1 = fs0(p \<mapsto> File (Body resp))))"
proof -
  obtain r fsa where t: "TempFile dir pfx (tmp_suffix a) fs0 = (r, fsa)" by (meson surj_pair)
  from TempFile_cases[OF t] assms t show ?thesis
    by (auto simp: fetchToFile_def failed_def Let_def fun_upd_restore
             split: option.splits sum.splits if_splits prod.splits)
qed

lemma Download_loop_TempFile:
  "Download_loop md5 (TempFile dir pfx) ci env k fs0 = (rs, fs1) \<Longrightarrow>
     (rs = [] \<and> fs1 = fs0) \<or>
     (rs \<noteq> [] \<and>
      ((fst (last rs) = '''' \<and> fst (snd (last rs)) = zeroCachingInfo \<and> fs1 = fs0) \<or>
       (snd (snd (last rs)) = None \<and> fst (last rs) \<noteq> '''' \<and> fs0 (fst (last rs)) = None \<and>
        (\<exists>bs. fs1 = fs0(fst (last rs) \<mapsto> File bs)))))"
proof (induction md5 "TempFile dir pfx" ci env k fs0 arbitrary: rs fs1 rule: Download_loop.induct)
  case (1 md5 ci env k fs0)
  show ?case
  proof (cases "k < MAX_DOWNLOAD_ATTEMPTS")
    case False
    with "1.prems" show ?thesis by (simp add: Download_loop.simps[of _ _ _ _ k])
  next
    case True
    obtain p c eo fsa where f: "fetchToFile md5 (TempFile dir pfx) ci (env k) fs0 = ((p, c, eo), fsa)"
      by (metis prod_cases3 surj_pair)
    note shape = fetchToFile_TempFile[OF f]
    show ?thesis
    proof (cases eo)
      case None
      with True f "1.prems" have "rs = [(p, c, None)]" "fs1 = fsa"
        by (auto simp: Download_loop.simps[of _ _ _ _ k])
      with shape None show ?thesis by auto
    next
      case (Some e)
      from shape Some have same: "fsa = fs0" "p = ''''" "c = zeroCachingInfo" by auto
      show ?thesis
      proof (cases "isCancelled e")
        case True
        with \<open>k < MAX_DOWNLOAD_ATTEMPTS\<close> f Some "1.prems" have "rs = [(p, c, Some e)]" "fs1 = fsa"
          by (auto simp: Download_loop.simps[of _ _ _ _ k])
        with same show ?thesis by simp
      next
        case False
        obtain rs' fsb where r: "Download_loop md5 (TempFile dir pfx) ci env (k + 1) fsa = (rs', fsb)"
          by (meson surj_pair)
        from \<open>k < MAX_DOWNLOAD_ATTEMPTS\<close> f Some False r "1.prems"
        have rs: "rs = (p, c, Some e) # rs'" "fs1 = fsb"
          by (auto simp: Download_loop.simps[of _ _ _ _ k])
        from "1.hyps"[OF True f[symmetric] refl refl Some False r] same rs
        show ?thesis by auto
      qed
    qed
  qed
qed

lemma Download_TempFile:
  assumes "Download md5 (TempFile dir pfx) ci denv fs0 = ((p, c, eo), fs1)"
  shows "(p = '''' \<and> c = zeroCachingInfo \<and> fs1 = fs0) \<or>
         (eo = None \<and> p \<noteq> '''' \<and> fs0 p = None \<and> (\<exists>bs. fs1 = fs0(p \<mapsto> File bs)))"
proof (cases "barrier_cancelled denv")
  case True
  with assms show ?thesis by (simp add: Download_def failed_def)
next
  case False
  obtain rs fsa where l: "Download_loop md5 (TempFile dir pfx) ci (attempts denv) 0 fs0 = (rs, fsa)"
    by (meson surj_pair)
  from Download_loop_TempFile[OF l] assms False l show ?thesis
    by (auto simp: Download_def split: if_splits prod.splits option.splits)
qed

lemma Download_failed:
  "Download md5 cd ci denv fs0 = ((p, c, Some e), fs1) \<Longrightarrow> p = '''' \<and> c = zeroCachingInfo"
  by (auto simp: Download_def failed_def split: if_splits prod.splits option.splits)

text \<open>
  C7. When \<open>Download\<close> returns an error, the path is empty and the validator is the
  zero value; and with the factory of \<open>populateCache\<close>, \<open>ioutil.TempFile\<close>, the file
  system is what it was before the call: every temporary file a failed attempt made is
  gone.
\<close>

theorem Download_error_cleanup:
  assumes "Download md5 cd ci denv fs0 = ((p, c, Some e), fs1)"
  shows "p = '''' \<and> c = zeroCachingInfo \<and> (\<forall>dir pfx. cd = TempFile dir pfx \<longrightarrow> fs1 = fs0)"
  using assms Download_failed[OF assms] Download_TempFile[of md5 _ _ ci denv fs0 p c "Some e" fs1]
  by auto

lemma broken_env_run:
  "Download sample_md5 (TempFile ''/u'' ''k-'') zeroCachingInfo broken_env fs_u =
     (('''', zeroCachingInfo, Some (IOError ''reset'')), fs_u)"
  by (simp add: Download_def broken_env_def Download_loop.simps[of _ _ _ _ 0]
        Download_loop.simps[of _ _ _ _ "Suc 0"] Download_loop.simps[of _ _ _ _ "Suc (Suc 0)"]
        Download_loop.simps[of _ _ _ _ "Suc (Suc (Suc 0))"]
        MAX_DOWNLOAD_ATTEMPTS_def ok_attempt_def upper_etag_response_def
        foo_response_def fetchToFile_def failed_def TempFile_def fs_u_def Let_def
        convertETagToChecksum_def Trim_def dquote_def fromHexChar_def sample_md5_def
        md5_of_empty_def fun_upd_restore)

theorem Download_error_cleanup_witness:
  "fst (Download sample_md5 (TempFile ''/u'' ''k-'') zeroCachingInfo broken_env fs_u) =
     ('''', zeroCachingInfo, Some (IOError ''reset'')) \<and>
   snd (Download sample_md5 (TempFile ''/u'' ''k-'') zeroCachingInfo broken_env fs_u) = fs_u"
  using Download_error_cleanup[OF broken_env_run] broken_env_run by simp

text \<open>
  C4. An attempt that received a response: status 304 gives the empty path, the zero
  validator and no error, and leaves the file system alone; a status other than 304 and
  200 gives the error that carries the status, with the empty path and the zero
  validator; status 200, when the temporary file is made, nothing fails while the body
  is written and the ETag is not a digest that differs from the body's, gives the name
  of the file, now holding the body, with the ETag and Last-Modified of the response.
\<close>

theorem fetchToFile_status:
  assumes "new_request_err a = None" and "do_outcome a (requestHeaders ci) = Inr resp"
  shows "(StatusCode resp = 304 \<longrightarrow>
            fetchToFile md5 cd ci a fs0 = (('''', zeroCachingInfo, None), fs0)) \<and>
         (StatusCode resp \<noteq> 304 \<and> StatusCode resp \<noteq> 200 \<longrightarrow>
            fetchToFile md5 cd ci a fs0 =
              (('''', zeroCachingInfo, Some (StatusCodeError (StatusCode resp))), fs0)) \<and>
         (StatusCode resp = 200 \<and> cd (tmp_suffix a) fs0 = (Inr name, fs1) \<and>
          seek_err a = None \<and> truncate_err a = None \<and> copy_failure a = None \<and>
          \<not> (snd (convertETagToChecksum (HeaderETag resp)) \<and>
             fst (convertETagToChecksum (HeaderETag resp)) \<noteq> md5 (Body resp)) \<longrightarrow>
            fetchToFile md5 cd ci a fs0 =
              ((name, \<lparr>ETag = HeaderETag resp, LastModified = HeaderLastModified resp\<rparr>, None),
               fs1(name \<mapsto> File (Body resp))))"
  using assms by (auto simp: fetchToFile_def failed_def Let_def split: prod.splits)

theorem fetchToFile_status_witness:
  "fetchToFile sample_md5 (TempFile ''/u'' ''k-'') zeroCachingInfo
     (ok_attempt (status_response 304)) fs_u = (('''', zeroCachingInfo, None), fs_u) \<and>
   fetchToFile sample_md5 (TempFile ''/u'' ''k-'') zeroCachingInfo
     (ok_attempt (status_response 500)) fs_u =
       (('''', zeroCachingInfo, Some (StatusCodeError 500)), fs_u) \<and>
   fetchToFile sample_md5 (TempFile ''/u'' ''k-'') zeroCachingInfo
     (ok_attempt foo_response) fs_u =
       ((''/u/k-1'', \<lparr>ETag = ''foo'', LastModified = ''''\<rparr>, None),
        fs_u(''/u/k-1'' \<mapsto> File [55, 55, 55]))"
proof -
  have t: "TempFile ''/u'' ''k-'' (tmp_suffix (ok_attempt foo_response)) fs_u =
             (Inr ''/u/k-1'', fs_u(''/u/k-1'' \<mapsto> File []))"
    by (simp add: TempFile_def fs_u_def ok_attempt_def Let_def)
  have c: "\<not> snd (convertETagToChecksum ''foo'')"
    by (simp add: convertETagToChecksum_def Trim_def dquote_def)
  show ?thesis
    using fetchToFile_status[of "ok_attempt (status_response 304)" zeroCachingInfo
            "status_response 304" sample_md5 "TempFile ''/u'' ''k-''" fs_u]
          fetchToFile_status[of "ok_attempt (status_response 500)" zeroCachingInfo
            "status_response 500" sample_md5 "TempFile ''/u'' ''k-''" fs_u]
          fetchToFile_status[where a = "ok_attempt foo_response" and ci = zeroCachingInfo
            and resp = foo_response and cd = "TempFile ''/u'' ''k-''" and ?fs0.0 = fs_u
            and name = "''/u/k-1''" and ?fs1.0 = "fs_u(''/u/k-1'' \<mapsto> File [])"
            and ?md5.0 = sample_md5]
          t c
    by (simp add: ok_attempt_def status_response_def foo_response_def)
qed

lemma DecodeString_iff:
  "DecodeString s \<noteq> None \<longleftrightarrow> even (length s) \<and> list_all isHexDigit s"
  by (induction s rule: induct_list012) (auto simp: isHexDigit_def split: option.splits)

lemma convertETagToChecksum_eq:
  "convertETagToChecksum etag =
     (if isMD5Hex (Trim etag dquote) then (the (DecodeString (Trim etag dquote)), True)
      else ([], False))"
proof (cases "length (Trim etag dquote) = 32")
  case False
  then show ?thesis by (simp add: convertETagToChecksum_def isMD5Hex_def Let_def)
next
  case True
  then have "even (length (Trim etag dquote))" by simp
  with True DecodeString_iff[of "Trim etag dquote"] show ?thesis
    by (auto simp: convertETagToChecksum_def isMD5Hex_def Let_def split: option.splits)
qed

text \<open>
  C3, as the code has it. For a 200 response whose body was streamed to the temporary
  file without a failure, the attempt fails with the checksum error exactly when the
  ETag, with the double quotes around it dropped, is 32 hex digits in either case and the
  bytes they denote differ from the MD5 of the body; any other ETag is not compared.
\<close>

theorem checksum_checked:
  assumes "new_request_err a = None"
    and "do_outcome a (requestHeaders ci) = Inr resp"
    and "StatusCode resp = 200"
    and "cd (tmp_suffix a) fs0 = (Inr name, fs1)"
    and "seek_err a = None" and "truncate_err a = None" and "copy_failure a = None"
  shows "fst (fetchToFile md5 cd ci a fs0) =
           (if isMD5Hex (Trim (HeaderETag resp) dquote) \<and>
               DecodeString (Trim (HeaderETag resp) dquote) \<noteq> Some (md5 (Body resp))
            then failed ChecksumMismatch
            else (name, \<lparr>ETag = HeaderETag resp, LastModified = HeaderLastModified resp\<rparr>, None))"
proof -
  have d: "isMD5Hex s \<Longrightarrow> \<exists>bs. DecodeString s = Some bs" for s
    using DecodeString_iff[of s] by (auto simp: isMD5Hex_def)
  show ?thesis using assms d[of "Trim (HeaderETag resp) dquote"]
    by (auto simp: fetchToFile_def Let_def convertETagToChecksum_eq)
qed

theorem checksum_checked_witness:
  "fst (fetchToFile sample_md5 (TempFile ''/u'' ''k-'') zeroCachingInfo
          (ok_attempt digest_etag_response) fs_u) =
     (''/u/k-1'', \<lparr>ETag = HeaderETag digest_etag_response, LastModified = ''''\<rparr>, None) \<and>
   isMD5Hex (Trim (HeaderETag digest_etag_response) dquote)"
proof -
  have t: "TempFile ''/u'' ''k-'' (tmp_suffix (ok_attempt digest_etag_response)) fs_u =
             (Inr ''/u/k-1'', fs_u(''/u/k-1'' \<mapsto> File []))"
    by (simp add: TempFile_def fs_u_def ok_attempt_def Let_def)
  have h: "isMD5Hex (Trim (HeaderETag digest_etag_response) dquote)"
    by (simp add: isMD5Hex_def isHexDigit_def fromHexChar_def Trim_def dquote_def
          digest_etag_response_def)
  have e: "DecodeString (Trim (HeaderETag digest_etag_response) dquote) =
             Some (sample_md5 (Body digest_etag_response))"
    by (simp add: fromHexChar_def Trim_def dquote_def digest_etag_response_def
          sample_md5_def md5_of_empty_def)
  show ?thesis
    using checksum_checked[where a = "ok_attempt digest_etag_response"
            and ci = zeroCachingInfo and resp = digest_etag_response
            and cd = "TempFile ''/u'' ''k-''" and ?fs0.0 = fs_u and name = "''/u/k-1''"
            and ?fs1.0 = "fs_u(''/u/k-1'' \<mapsto> File [])" and ?md5.0 = sample_md5]
          t h e
    by (simp add: ok_attempt_def digest_etag_response_def)
qed

text \<open>
  C3 as stated fails: an ETag of 32 upper-case hex digits is no lower-case hex string,
  and the attempt is failed for its mismatch with the digest of the body all the same.
\<close>

theorem upper_case_etag_counterexample:
  "\<not> isLowerMD5Hex (HeaderETag upper_etag_response) \<and>
   fst (fetchToFile sample_md5 (TempFile ''/u'' ''k-'') zeroCachingInfo
          (ok_attempt upper_etag_response) fs_u) = failed ChecksumMismatch"
  by (simp add: isLowerMD5Hex_def isLowerHexDigit_def upper_etag_response_def fetchToFile_def
        ok_attempt_def TempFile_def fs_u_def Let_def convertETagToChecksum_def Trim_def dquote_def
        fromHexChar_def md5_of_empty_def sample_md5_def)

section \<open>Properties of the cached downloader\<close>

lemma fingerprint_k: "fingerprint sample_md5 ''k'' = ''d41d8cd98f00b204e9800998ecf8427e''"
  by (simp add: fingerprint_def hexEncode_def hexDigit_def sample_md5_def md5_of_empty_def)

lemma world_files_same [simp]: "w\<lparr>files := files w\<rparr> = w"
  by simp

lemma populateCache_cache:
  "populateCache md5 c name ci tr env w = (r, w2) \<Longrightarrow> cache w2 = cache w"
  by (auto simp: populateCache_def split: prod.splits option.splits if_splits sum.splits)

lemma populateCache_of_warm:
  assumes "fst (Download md5 (TempFile (uncachedPath c) (name @ ''-'')) ci (net env) (files w)) =
             ('''', ci', None)"
  shows "populateCache md5 c name ci tr env w = ((zeroDownload, True, 0, None), w)"
proof -
  obtain fs1 where d:
    "Download md5 (TempFile (uncachedPath c) (name @ ''-'')) ci (net env) (files w) = (('''', ci', None), fs1)"
    using assms by (metis prod.collapse)
  from Download_TempFile[OF d] have "fs1 = files w" by auto
  with d show ?thesis by (simp add: populateCache_def)
qed

lemma cache_Get_files: "cache_Get k w = (r, w1) \<Longrightarrow> files w1 = files w"
  by (auto simp: cache_Get_def Let_def split: option.splits)

text \<open>
  C5. A call of \<open>Fetch\<close> with a cache key, for which the downloader reports the warm
  cache (no error and the empty path, its answer to a 304), returns the handle and the
  error of the preceding cache lookup with size 0; the state is the one the lookup
  left, and the files are those from before the call.
\<close>

theorem Fetch_warm:
  assumes "cacheKey \<noteq> ''''" and "\<not> limiter_cancelled env"
    and "cache_Get (fingerprint md5 cacheKey) w = ((currentReader, currentCachingInfo, getErr), w1)"
    and "fst (Download md5 (TempFile (uncachedPath c) (fingerprint md5 cacheKey @ ''-''))
                currentCachingInfo (net env) (files w1)) = ('''', ci', None)"
  shows "Fetch md5 c cacheKey env w = ((currentReader, 0, getErr), w1) \<and> files w1 = files w"
  using assms populateCache_of_warm[OF assms(4), of "transformer c"] cache_Get_files[OF assms(3)]
  by (simp add: Fetch_def fetchCachedFile_def)

theorem Fetch_warm_witness:
  "fst (Fetch sample_md5 sample_downloader ''k'' (sample_env (status_response 304)) warm_world) =
     (Some \<lparr>hPath = ''/c/d41d8cd98f00b204e9800998ecf8427e-1'', hook = ReleaseCached\<rparr>, 0, None) \<and>
   files (snd (Fetch sample_md5 sample_downloader ''k'' (sample_env (status_response 304))
                 warm_world)) = files warm_world"
proof -
  let ?w1 = "snd (cache_Get ''d41d8cd98f00b204e9800998ecf8427e'' warm_world)"
  have g: "cache_Get (fingerprint sample_md5 ''k'') warm_world =
             ((Some \<lparr>hPath = ''/c/d41d8cd98f00b204e9800998ecf8427e-1'', hook = ReleaseCached\<rparr>,
               \<lparr>ETag = ''foo'', LastModified = ''''\<rparr>, None), ?w1)"
    by (simp add: fingerprint_k cache_Get_def warm_world_def warm_entry_def Let_def)
  have d: "fst (Download sample_md5
                  (TempFile (uncachedPath sample_downloader) (fingerprint sample_md5 ''k'' @ ''-''))
                  \<lparr>ETag = ''foo'', LastModified = ''''\<rparr> (net (sample_env (status_response 304)))
                  (files ?w1)) = ('''', zeroCachingInfo, None)"
    by (simp add: Download_def Download_loop.simps[of _ _ _ _ 0] MAX_DOWNLOAD_ATTEMPTS_def
          sample_env_def ok_attempt_def status_response_def fetchToFile_def)
  have "''k'' \<noteq> ''''" and "\<not> limiter_cancelled (sample_env (status_response 304))"
    by (simp_all add: sample_env_def)
  from Fetch_warm[OF this g d] show ?thesis by simp
qed

lemma find_update_present:
  "map_of es k = Some e \<Longrightarrow> P (k, e') \<Longrightarrow> find P (AList.update k e' es) \<noteq> None"
  by (induction es) (auto split: if_splits)

lemma releasePath_indexed_files:
  assumes "find (\<lambda>(k, e). FilePath e = p) (Entries (cache w)) \<noteq> None"
  shows "\<exists>w'. releasePath p w = Some w' \<and> files w' = files w"
  using assms by (auto simp: releasePath_def Let_def split: option.splits prod.splits)

lemma closeReader_after_Get:
  assumes "cache_Get k w = ((cur, ci, ge), w1)" and "cache w2 = cache w1"
  shows "files (closeReader cur w2) = files w2"
proof (cases "map_of (Entries (cache w)) k")
  case None
  with assms show ?thesis by (auto simp: cache_Get_def Let_def closeReader_def)
next
  case (Some e)
  let ?e' = "e\<lparr>Access := Clock (cache w), inuseCount := inuseCount e + 1\<rparr>"
  from Some assms(1) have cur: "cur = Some \<lparr>hPath = FilePath e, hook = ReleaseCached\<rparr>"
    and es: "Entries (cache w1) = AList.update k ?e' (Entries (cache w))"
    by (auto simp: cache_Get_def Let_def)
  have "find (\<lambda>(k, e'). FilePath e' = FilePath e) (Entries (cache w2)) \<noteq> None"
    using find_update_present[OF Some, of "\<lambda>(k, e'). FilePath e' = FilePath e" ?e'] es assms(2)
    by simp
  from releasePath_indexed_files[OF this] cur show ?thesis
    by (auto simp: closeReader_def Close_def)
qed

lemma cache_Add_NotEnoughSpace:
  assumes "snd (fst (cache_Add k p s ci w)) = Some NotEnoughSpace"
  shows "cache_Add k p s ci w = ((None, Some NotEnoughSpace), w)"
proof (cases "pickVictims (usedSpace (Entries (cache w)) + s - maxSizeInBytes (cache w))
                (candidates (Entries (cache w)))")
  case None
  then show ?thesis by (simp add: cache_Add_def)
next
  case (Some victims)
  then have "snd (fst (cache_Add k p s ci w)) = None"
    unfolding cache_Add_def Let_def by simp
  with assms show ?thesis by simp
qed

lemma Fetch_NotEnoughSpace:
  assumes "cacheKey \<noteq> ''''" and "\<not> limiter_cancelled env"
    and "cache_Get (fingerprint md5 cacheKey) w = ((cur, curCI, getErr), w1)"
    and "populateCache md5 c (fingerprint md5 cacheKey) curCI (transformer c) env w1 =
           ((dl, False, sz, None), w2)"
    and "isCacheable (d_cachingInfo dl)"
    and "files w2 (d_path dl) \<noteq> None"
    and "snd (fst (cache_Add (fingerprint md5 cacheKey) (d_path dl) (d_size dl) (d_cachingInfo dl)
                     (closeReader cur w2))) = Some NotEnoughSpace"
  shows "Fetch md5 c cacheKey env w =
           ((Some \<lparr>hPath = d_path dl, hook = DeleteOnClose\<rparr>, sz, None), closeReader cur w2)"
proof -
  have f: "files (closeReader cur w2) = files w2"
    using closeReader_after_Get[OF assms(3) populateCache_cache[OF assms(4)]] .
  show ?thesis
    using assms(1-6) cache_Add_NotEnoughSpace[OF assms(7)] f
    by (simp add: Fetch_def fetchCachedFile_def Let_def tempFileRemoveOnClose_def)
qed

lemma FetchAsDirectory_NotEnoughSpace:
  assumes "\<not> limiter_cancelled env"
    and "cache_GetDirectory (fingerprint md5 cacheKey) w = ((curDir, curCI, getErr), w1)"
    and "populateCache md5 c (fingerprint md5 cacheKey) curCI tar env w1 =
           ((dl, False, sz, None), w2)"
    and "isCacheable (d_cachingInfo dl)"
    and "snd (fst (cache_AddDirectory (fingerprint md5 cacheKey) (d_path dl) (d_size dl)
                     (d_cachingInfo dl) (closeDirectoryIf (fingerprint md5 cacheKey) curDir w2))) =
           Some NotEnoughSpace"
  shows "fst (FetchAsDirectory md5 c tar cacheKey env w) = ('''', Some NotEnoughSpace)"
proof (cases "getErr = Some NotEnoughSpace")
  case True
  with assms(1,2) show ?thesis
    by (simp add: FetchAsDirectory_def fetchCachedDirectory_def)
next
  case False
  obtain nd err w4 where a:
    "cache_AddDirectory (fingerprint md5 cacheKey) (d_path dl) (d_size dl) (d_cachingInfo dl)
       (closeDirectoryIf (fingerprint md5 cacheKey) curDir w2) = ((nd, err), w4)"
    by (metis surj_pair)
  with assms(5) have "err = Some NotEnoughSpace" by simp
  with False a assms(1-4) show ?thesis
    by (simp add: FetchAsDirectory_def fetchCachedDirectory_def Let_def)
qed

text \<open>
  C1. A call of \<open>Fetch\<close> with a cache key whose download gave fresh bytes with a
  validator, and for which the cache answers \<open>Add\<close> with \<open>NotEnoughSpace\<close>, returns
  no error but a delete-on-close handle on the transformed file (which the transformer
  left in place) with the size of the download; \<open>FetchAsDirectory\<close> in the same
  situation returns the empty path and \<open>NotEnoughSpace\<close>.
\<close>

theorem NotEnoughSpace_only_for_directories:
  "(cacheKey \<noteq> '''' \<and> \<not> limiter_cancelled env \<and>
    cache_Get (fingerprint md5 cacheKey) w = ((cur, curCI, getErr), w1) \<and>
    populateCache md5 c (fingerprint md5 cacheKey) curCI (transformer c) env w1 =
      ((dl, False, sz, None), w2) \<and>
    isCacheable (d_cachingInfo dl) \<and> files w2 (d_path dl) \<noteq> None \<and>
    snd (fst (cache_Add (fingerprint md5 cacheKey) (d_path dl) (d_size dl) (d_cachingInfo dl)
                (closeReader cur w2))) = Some NotEnoughSpace
    \<longrightarrow> Fetch md5 c cacheKey env w =
          ((Some \<lparr>hPath = d_path dl, hook = DeleteOnClose\<rparr>, sz, None), closeReader cur w2)) \<and>
   (\<not> limiter_cancelled env \<and>
    cache_GetDirectory (fingerprint md5 cacheKey) w = ((curDir, curCI', getErr'), w1') \<and>
    populateCache md5 c (fingerprint md5 cacheKey) curCI' tar env w1' =
      ((dl', False, sz', None), w2') \<and>
    isCacheable (d_cachingInfo dl') \<and>
    snd (fst (cache_AddDirectory (fingerprint md5 cacheKey) (d_path dl') (d_size dl')
                (d_cachingInfo dl') (closeDirectoryIf (fingerprint md5 cacheKey) curDir w2'))) =
      Some NotEnoughSpace
    \<longrightarrow> fst (FetchAsDirectory md5 c tar cacheKey env w) = ('''', Some NotEnoughSpace))"
proof (intro conjI impI)
  assume h: "cacheKey \<noteq> '''' \<and> \<not> limiter_cancelled env \<and>
    cache_Get (fingerprint md5 cacheKey) w = ((cur, curCI, getErr), w1) \<and>
    populateCache md5 c (fingerprint md5 cacheKey) curCI (transformer c) env w1 =
      ((dl, False, sz, None), w2) \<and>
    isCacheable (d_cachingInfo dl) \<and> files w2 (d_path dl) \<noteq> None \<and>
    snd (fst (cache_Add (fingerprint md5 cacheKey) (d_path dl) (d_size dl) (d_cachingInfo dl)
                (closeReader cur w2))) = Some NotEnoughSpace"
  show "Fetch md5 c cacheKey env w =
          ((Some \<lparr>hPath = d_path dl, hook = DeleteOnClose\<rparr>, sz, None), closeReader cur w2)"
    by (rule Fetch_NotEnoughSpace[where curCI = curCI and getErr = getErr and ?w1.0 = w1];
        use h in blast)
next
  assume h: "\<not> limiter_cancelled env \<and>
    cache_GetDirectory (fingerprint md5 cacheKey) w = ((curDir, curCI', getErr'), w1') \<and>
    populateCache md5 c (fingerprint md5 cacheKey) curCI' tar env w1' =
      ((dl', False, sz', None), w2') \<and>
    isCacheable (d_cachingInfo dl') \<and>
    snd (fst (cache_AddDirectory (fingerprint md5 cacheKey) (d_path dl') (d_size dl')
                (d_cachingInfo dl') (closeDirectoryIf (fingerprint md5 cacheKey) curDir w2'))) =
      Some NotEnoughSpace"
  show "fst (FetchAsDirectory md5 c tar cacheKey env w) = ('''', Some NotEnoughSpace)"
    by (rule FetchAsDirectory_NotEnoughSpace[where curDir = curDir and curCI = curCI'
          and getErr = getErr' and ?w1.0 = w1' and dl = dl' and sz = sz' and ?w2.0 = w2'];
        use h in blast)
qed

text \<open>The sample runs, evaluated.\<close>

lemma sample_env_fields:
  "limiter_cancelled (sample_env r) = False" "transformed_suffix (sample_env r) = ''2''"
  "close_err (sample_env r) = None"
  by (simp_all add: sample_env_def)

lemma sample_download:
  assumes "fs ''/u'' = Some Dir" and "fs ''/u/d41d8cd98f00b204e9800998ecf8427e-1'' = None"
    and "StatusCode r = 200" and "\<not> snd (convertETagToChecksum (HeaderETag r))"
  shows "Download sample_md5 (TempFile ''/u'' ''d41d8cd98f00b204e9800998ecf8427e-'') ci
           (net (sample_env r)) fs =
         ((''/u/d41d8cd98f00b204e9800998ecf8427e-1'',
           \<lparr>ETag = HeaderETag r, LastModified = HeaderLastModified r\<rparr>, None),
          fs(''/u/d41d8cd98f00b204e9800998ecf8427e-1'' \<mapsto> File (Body r)))"
proof -
  obtain x where c: "convertETagToChecksum (HeaderETag r) = (x, False)"
    using assms(4) by (cases "convertETagToChecksum (HeaderETag r)") auto
  show ?thesis
    using assms(1-3) c
    by (simp add: Download_def Download_loop.simps[of _ _ _ _ 0] MAX_DOWNLOAD_ATTEMPTS_def
          sample_env_def ok_attempt_def fetchToFile_def TempFile_def Let_def)
qed

lemma sample_populate:
  assumes "uncachedPath c = ''/u''" and "files w ''/u'' = Some Dir"
    and "files w ''/u/d41d8cd98f00b204e9800998ecf8427e-1'' = None"
    and "files w ''/u/transformed2'' = None"
    and "StatusCode r = 200" and "\<not> snd (convertETagToChecksum (HeaderETag r))"
    and "tr ''/u/d41d8cd98f00b204e9800998ecf8427e-1'' ''/u/transformed2''
           ((files w)(''/u/d41d8cd98f00b204e9800998ecf8427e-1'' \<mapsto> File (Body r),
                      ''/u/transformed2'' \<mapsto> File [])) = (Inr n, fs3)"
  shows "populateCache sample_md5 c ''d41d8cd98f00b204e9800998ecf8427e'' ci tr
           (sample_env r) w =
         ((\<lparr>d_path = ''/u/transformed2'', d_size = n,
            d_cachingInfo = \<lparr>ETag = HeaderETag r, LastModified = HeaderLastModified r\<rparr>\<rparr>,
           False, int (length (Body r)), None), w\<lparr>files := fs3\<rparr>)"
  using assms(1-4,7) sample_download[OF assms(2,3,5,6), of ci]
  by (simp add: populateCache_def Stat_def
        TempFile_def Let_def sample_env_fields)

lemma NoopTransform_sample:
  "NoopTransform ''/u/d41d8cd98f00b204e9800998ecf8427e-1'' ''/u/transformed2''
     (fs(''/u/d41d8cd98f00b204e9800998ecf8427e-1'' \<mapsto> File bs, ''/u/transformed2'' \<mapsto> File [])) =
   (Inr (int (length bs)),
    rename ''/u/d41d8cd98f00b204e9800998ecf8427e-1'' ''/u/transformed2''
      (fs(''/u/d41d8cd98f00b204e9800998ecf8427e-1'' \<mapsto> File bs, ''/u/transformed2'' \<mapsto> File [])))"
  by (simp add: NoopTransform_def Let_def Stat_def rename_def)

lemma not_a_digest: "\<not> snd (convertETagToChecksum ''foo'')" "\<not> snd (convertETagToChecksum '''')"
  by (simp_all add: convertETagToChecksum_def Trim_def dquote_def)

theorem NotEnoughSpace_only_for_directories_witness:
  "fst (Fetch sample_md5 sample_downloader ''k'' (sample_env foo_response) (empty_world 2)) =
     (Some \<lparr>hPath = ''/u/transformed2'', hook = DeleteOnClose\<rparr>, 3, None) \<and>
   fst (FetchAsDirectory sample_md5 sample_downloader NoopTransform ''k''
          (sample_env foo_response) (empty_world 2)) = ('''', Some NotEnoughSpace)"
proof -
  let ?w = "empty_world 2"
  let ?fp = "fingerprint sample_md5 ''k''"
  let ?src = "''/u/d41d8cd98f00b204e9800998ecf8427e-1''"
  let ?dl = "\<lparr>d_path = ''/u/transformed2'', d_size = 3,
              d_cachingInfo = \<lparr>ETag = ''foo'', LastModified = ''''\<rparr>\<rparr>"
  let ?fs3 = "rename ?src ''/u/transformed2''
                ((files ?w)(?src \<mapsto> File [55, 55, 55], ''/u/transformed2'' \<mapsto> File []))"
  let ?w2 = "?w\<lparr>files := ?fs3\<rparr>"
  have k: "''k'' \<noteq> ''''" and l: "\<not> limiter_cancelled (sample_env foo_response)"
    by (simp_all add: sample_env_fields)
  have g: "cache_Get ?fp ?w = ((None, zeroCachingInfo, Some EntryNotFound), ?w)"
    by (simp add: cache_Get_def empty_world_def NewCache_def)
  have gd: "cache_GetDirectory ?fp ?w = (('''', zeroCachingInfo, Some EntryNotFound), ?w)"
    by (simp add: cache_GetDirectory_def g)
  have pc: "populateCache sample_md5 sample_downloader ?fp zeroCachingInfo NoopTransform
              (sample_env foo_response) ?w = ((?dl, False, 3, None), ?w2)"
    using sample_populate[where w = ?w and r = foo_response and tr = NoopTransform
            and ci = zeroCachingInfo and n = 3 and ?fs3.0 = ?fs3 and c = sample_downloader]
    by (simp add: fingerprint_k empty_world_def fs_u_def foo_response_def not_a_digest
          NoopTransform_sample sample_downloader_def)
  have pc': "populateCache sample_md5 sample_downloader ?fp zeroCachingInfo
               (transformer sample_downloader) (sample_env foo_response) ?w =
             ((?dl, False, 3, None), ?w2)"
    using pc by (simp add: sample_downloader_def)
  have c: "isCacheable (d_cachingInfo ?dl)" by (simp add: isCacheable_def)
  have f: "files ?w2 (d_path ?dl) \<noteq> None"
    by (simp add: rename_def)
  have a: "snd (fst (cache_Add ?fp (d_path ?dl) (d_size ?dl) (d_cachingInfo ?dl)
                      (closeReader None ?w2))) = Some NotEnoughSpace"
    by (simp add: cache_Add_def closeReader_def empty_world_def NewCache_def usedSpace_def
          candidates_def)
  have ad: "snd (fst (cache_AddDirectory ?fp (d_path ?dl) (d_size ?dl) (d_cachingInfo ?dl)
                       (closeDirectoryIf ?fp '''' ?w2))) = Some NotEnoughSpace"
    by (simp add: cache_AddDirectory_def cache_Add_def closeDirectoryIf_def empty_world_def
          NewCache_def usedSpace_def candidates_def)
  note t = NotEnoughSpace_only_for_directories[where cacheKey = "''k''" and ?md5.0 = sample_md5
      and env = "sample_env foo_response" and w = ?w and c = sample_downloader
      and cur = None and curCI = zeroCachingInfo and getErr = "Some EntryNotFound" and ?w1.0 = ?w
      and dl = ?dl and sz = 3 and ?w2.0 = ?w2
      and curDir = "''''" and curCI' = zeroCachingInfo and getErr' = "Some EntryNotFound"
      and ?w1' = ?w and dl' = ?dl and sz' = 3 and ?w2' = ?w2 and tar = NoopTransform]
  from t[THEN conjunct1] k l g pc' c f a
  have "Fetch sample_md5 sample_downloader ''k'' (sample_env foo_response) ?w =
          ((Some \<lparr>hPath = d_path ?dl, hook = DeleteOnClose\<rparr>, 3, None), closeReader None ?w2)"
    by blast
  moreover from t[THEN conjunct2] l gd pc c ad
  have "fst (FetchAsDirectory sample_md5 sample_downloader NoopTransform ''k''
          (sample_env foo_response) ?w) = ('''', Some NotEnoughSpace)"
    by blast
  ultimately show ?thesis by simp
qed

lemma cache_Remove_unlinks: "map_of (Entries (cache (cache_Remove k w))) k = None"
  by (cases "map_of (Entries (cache w)) k") (simp_all add: cache_Remove_def Let_def delete_conv')

lemma cache_GetDirectory_err:
  assumes "cache_GetDirectory k w = ((d, ci, ge), w1)"
  shows "ge \<noteq> Some NotEnoughSpace"
  using assms
  by (cases "map_of (Entries (cache w)) k")
     (auto simp: cache_GetDirectory_def cache_Get_def Let_def)

lemma Fetch_not_cacheable:
  assumes "cacheKey \<noteq> ''''" and "\<not> limiter_cancelled env"
    and "cache_Get (fingerprint md5 cacheKey) w = ((cur, curCI, getErr), w1)"
    and "populateCache md5 c (fingerprint md5 cacheKey) curCI (transformer c) env w1 =
           ((dl, False, sz, None), w2)"
    and "\<not> isCacheable (d_cachingInfo dl)"
    and "files (cache_Remove (fingerprint md5 cacheKey) (closeReader cur w2)) (d_path dl) \<noteq> None"
  shows "Fetch md5 c cacheKey env w =
           ((Some \<lparr>hPath = d_path dl, hook = DeleteOnClose\<rparr>, sz, None),
            cache_Remove (fingerprint md5 cacheKey) (closeReader cur w2))"
  using assms
  by (simp add: Fetch_def fetchCachedFile_def Let_def tempFileRemoveOnClose_def)

lemma FetchAsDirectory_not_cacheable:
  assumes "\<not> limiter_cancelled env"
    and "cache_GetDirectory (fingerprint md5 cacheKey) w = ((curDir, curCI, getErr), w1)"
    and "populateCache md5 c (fingerprint md5 cacheKey) curCI tar env w1 =
           ((dl, False, sz, None), w2)"
    and "\<not> isCacheable (d_cachingInfo dl)"
  shows "FetchAsDirectory md5 c tar cacheKey env w =
           (('''', Some NotCacheable),
            cache_Remove (fingerprint md5 cacheKey)
              (closeDirectoryIf (fingerprint md5 cacheKey) curDir w2))"
  using assms cache_GetDirectory_err[OF assms(2)]
  by (simp add: FetchAsDirectory_def fetchCachedDirectory_def Let_def)

text \<open>
  C6. A download of fresh bytes whose new validator has neither ETag nor Last-Modified:
  \<open>Fetch\<close> calls \<open>Remove\<close> for the fingerprint, after which the index has no entry
  for it, and returns the transformed file (in place when it is opened) as a
  delete-on-close handle, with no error; \<open>FetchAsDirectory\<close> removes the entry as well
  and returns the empty path with \<open>NotCacheable\<close>.
\<close>

theorem not_cacheable_purges_entry:
  "(cacheKey \<noteq> '''' \<and> \<not> limiter_cancelled env \<and>
    cache_Get (fingerprint md5 cacheKey) w = ((cur, curCI, getErr), w1) \<and>
    populateCache md5 c (fingerprint md5 cacheKey) curCI (transformer c) env w1 =
      ((dl, False, sz, None), w2) \<and>
    \<not> isCacheable (d_cachingInfo dl) \<and>
    files (cache_Remove (fingerprint md5 cacheKey) (closeReader cur w2)) (d_path dl) \<noteq> None
    \<longrightarrow> Fetch md5 c cacheKey env w =
          ((Some \<lparr>hPath = d_path dl, hook = DeleteOnClose\<rparr>, sz, None),
           cache_Remove (fingerprint md5 cacheKey) (closeReader cur w2)) \<and>
        map_of (Entries (cache (snd (Fetch md5 c cacheKey env w)))) (fingerprint md5 cacheKey) =
          None) \<and>
   (\<not> limiter_cancelled env \<and>
    cache_GetDirectory (fingerprint md5 cacheKey) w = ((curDir, curCI', getErr'), w1') \<and>
    populateCache md5 c (fingerprint md5 cacheKey) curCI' tar env w1' =
      ((dl', False, sz', None), w2') \<and>
    \<not> isCacheable (d_cachingInfo dl')
    \<longrightarrow> FetchAsDirectory md5 c tar cacheKey env w =
          (('''', Some NotCacheable),
           cache_Remove (fingerprint md5 cacheKey)
             (closeDirectoryIf (fingerprint md5 cacheKey) curDir w2')) \<and>
        map_of (Entries (cache (snd (FetchAsDirectory md5 c tar cacheKey env w))))
          (fingerprint md5 cacheKey) = None)"
proof (intro conjI impI)
  assume h: "cacheKey \<noteq> '''' \<and> \<not> limiter_cancelled env \<and>
    cache_Get (fingerprint md5 cacheKey) w = ((cur, curCI, getErr), w1) \<and>
    populateCache md5 c (fingerprint md5 cacheKey) curCI (transformer c) env w1 =
      ((dl, False, sz, None), w2) \<and>
    \<not> isCacheable (d_cachingInfo dl) \<and>
    files (cache_Remove (fingerprint md5 cacheKey) (closeReader cur w2)) (d_path dl) \<noteq> None"
  show f: "Fetch md5 c cacheKey env w =
          ((Some \<lparr>hPath = d_path dl, hook = DeleteOnClose\<rparr>, sz, None),
           cache_Remove (fingerprint md5 cacheKey) (closeReader cur w2))"
    by (rule Fetch_not_cacheable[where curCI = curCI and getErr = getErr and ?w1.0 = w1];
        use h in blast)
  show "map_of (Entries (cache (snd (Fetch md5 c cacheKey env w)))) (fingerprint md5 cacheKey) =
          None"
    by (simp add: f cache_Remove_unlinks)
next
  assume h: "\<not> limiter_cancelled env \<and>
    cache_GetDirectory (fingerprint md5 cacheKey) w = ((curDir, curCI', getErr'), w1') \<and>
    populateCache md5 c (fingerprint md5 cacheKey) curCI' tar env w1' =
      ((dl', False, sz', None), w2') \<and>
    \<not> isCacheable (d_cachingInfo dl')"
  show f: "FetchAsDirectory md5 c tar cacheKey env w =
          (('''', Some NotCacheable),
           cache_Remove (fingerprint md5 cacheKey)
             (closeDirectoryIf (fingerprint md5 cacheKey) curDir w2'))"
    by (rule FetchAsDirectory_not_cacheable[where curCI = curCI' and getErr = getErr'
          and ?w1.0 = w1' and dl = dl' and sz = sz'];
        use h in blast)
  show "map_of (Entries (cache (snd (FetchAsDirectory md5 c tar cacheKey env w))))
          (fingerprint md5 cacheKey) = None"
    by (simp add: f cache_Remove_unlinks)
qed

lemma warm_world_Get:
  "cache_Get ''d41d8cd98f00b204e9800998ecf8427e'' warm_world =
     ((Some \<lparr>hPath = ''/c/d41d8cd98f00b204e9800998ecf8427e-1'', hook = ReleaseCached\<rparr>,
       \<lparr>ETag = ''foo'', LastModified = ''''\<rparr>, None),
      warm_world\<lparr>cache := (cache warm_world)
        \<lparr>Entries := [(''d41d8cd98f00b204e9800998ecf8427e'',
                       warm_entry\<lparr>Access := 1, inuseCount := 1\<rparr>)],
         Clock := 2\<rparr>\<rparr>)"
  by (simp add: cache_Get_def warm_world_def warm_entry_def Let_def)

theorem not_cacheable_purges_entry_witness:
  "fst (Fetch sample_md5 sample_downloader ''k'' (sample_env plain_response) warm_world) =
     (Some \<lparr>hPath = ''/u/transformed2'', hook = DeleteOnClose\<rparr>, 3, None) \<and>
   map_of (Entries (cache warm_world)) ''d41d8cd98f00b204e9800998ecf8427e'' = Some warm_entry \<and>
   map_of (Entries (cache (snd (Fetch sample_md5 sample_downloader ''k''
                                  (sample_env plain_response) warm_world))))
     ''d41d8cd98f00b204e9800998ecf8427e'' = None \<and>
   fst (FetchAsDirectory sample_md5 sample_downloader NoopTransform ''k''
          (sample_env plain_response) warm_world) = ('''', Some NotCacheable)"
proof -
  let ?fp = "fingerprint sample_md5 ''k''"
  let ?src = "''/u/d41d8cd98f00b204e9800998ecf8427e-1''"
  let ?h = "\<lparr>hPath = ''/c/d41d8cd98f00b204e9800998ecf8427e-1'', hook = ReleaseCached\<rparr>"
  let ?ci = "\<lparr>ETag = ''foo'', LastModified = ''''\<rparr>"
  let ?w1 = "warm_world\<lparr>cache := (cache warm_world)
        \<lparr>Entries := [(''d41d8cd98f00b204e9800998ecf8427e'',
                       warm_entry\<lparr>Access := 1, inuseCount := 1\<rparr>)],
         Clock := 2\<rparr>\<rparr>"
  let ?dl = "\<lparr>d_path = ''/u/transformed2'', d_size = 3,
              d_cachingInfo = \<lparr>ETag = '''', LastModified = ''''\<rparr>\<rparr>"
  let ?fs3 = "rename ?src ''/u/transformed2''
                ((files ?w1)(?src \<mapsto> File [55, 55, 55], ''/u/transformed2'' \<mapsto> File []))"
  let ?w2 = "?w1\<lparr>files := ?fs3\<rparr>"
  have k: "''k'' \<noteq> ''''" and l: "\<not> limiter_cancelled (sample_env plain_response)"
    by (simp_all add: sample_env_fields)
  have g: "cache_Get ?fp warm_world = ((Some ?h, ?ci, None), ?w1)"
    by (simp add: fingerprint_k warm_world_Get)
  have gd: "cache_GetDirectory ?fp warm_world =
              ((''/c/d41d8cd98f00b204e9800998ecf8427e-1'', ?ci, None), ?w1)"
    by (simp add: cache_GetDirectory_def g)
  have pc: "populateCache sample_md5 sample_downloader ?fp ?ci NoopTransform
              (sample_env plain_response) ?w1 = ((?dl, False, 3, None), ?w2)"
    using sample_populate[where w = ?w1 and r = plain_response and tr = NoopTransform
            and ci = ?ci and n = 3 and ?fs3.0 = ?fs3 and c = sample_downloader]
    by (simp add: fingerprint_k warm_world_def fs_u_def plain_response_def not_a_digest
          NoopTransform_sample sample_downloader_def)
  have pc': "populateCache sample_md5 sample_downloader ?fp ?ci (transformer sample_downloader)
               (sample_env plain_response) ?w1 = ((?dl, False, 3, None), ?w2)"
    using pc by (simp add: sample_downloader_def)
  have c: "\<not> isCacheable (d_cachingInfo ?dl)" by (simp add: isCacheable_def)
  have f: "files (cache_Remove ?fp (closeReader (Some ?h) ?w2)) (d_path ?dl) \<noteq> None"
    by (simp add: fingerprint_k cache_Remove_def closeReader_def Close_def releasePath_def
          warm_world_def warm_entry_def Let_def RemoveAll_def hasNul_def isAbs_def beneath_def
          rename_def)
  have e: "map_of (Entries (cache warm_world)) ''d41d8cd98f00b204e9800998ecf8427e'' =
             Some warm_entry"
    by (simp add: warm_world_def)
  note t = not_cacheable_purges_entry[where cacheKey = "''k''" and ?md5.0 = sample_md5
      and env = "sample_env plain_response" and w = warm_world and c = sample_downloader
      and cur = "Some ?h" and curCI = ?ci and getErr = None and ?w1.0 = ?w1
      and dl = ?dl and sz = 3 and ?w2.0 = ?w2
      and curDir = "''/c/d41d8cd98f00b204e9800998ecf8427e-1''" and curCI' = ?ci
      and getErr' = None and ?w1' = ?w1 and dl' = ?dl and sz' = 3 and ?w2' = ?w2
      and tar = NoopTransform]
  from t[THEN conjunct1] k l g pc' c f
  have "Fetch sample_md5 sample_downloader ''k'' (sample_env plain_response) warm_world =
          ((Some \<lparr>hPath = d_path ?dl, hook = DeleteOnClose\<rparr>, 3, None),
           cache_Remove ?fp (closeReader (Some ?h) ?w2)) \<and>
        map_of (Entries (cache (snd (Fetch sample_md5 sample_downloader ''k''
                                  (sample_env plain_response) warm_world)))) ?fp = None"
    by blast
  moreover from t[THEN conjunct2] l gd pc c
  have "FetchAsDirectory sample_md5 sample_downloader NoopTransform ''k''
          (sample_env plain_response) warm_world =
          (('''', Some NotCacheable),
           cache_Remove ?fp (closeDirectoryIf ?fp ''/c/d41d8cd98f00b204e9800998ecf8427e-1'' ?w2))"
    by blast
  ultimately show ?thesis using e by (simp add: fingerprint_k cache_Remove_unlinks)
qed

lemma populateCache_fresh:
  assumes "populateCache md5 c name ci tr env w = ((dl, False, sz, None), w2)"
  shows "\<exists>filename fs1 fs2.
           Download md5 (TempFile (uncachedPath c) (name @ ''-'')) ci (net env) (files w) =
             ((filename, d_cachingInfo dl, None), fs1) \<and>
           filename \<noteq> '''' \<and> Stat filename fs1 = Inr sz \<and>
           TempFile (uncachedPath c) ''transformed'' (transformed_suffix env) fs1 =
             (Inr (d_path dl), fs2) \<and>
           tr filename (d_path dl) fs2 = (Inr (d_size dl), files w2)"
proof -
  obtain filename ci' eo fs1 where d:
    "Download md5 (TempFile (uncachedPath c) (name @ ''-'')) ci (net env) (files w) =
       ((filename, ci', eo), fs1)"
    by (metis prod_cases3 surj_pair)
  obtain t fs2 where t:
    "TempFile (uncachedPath c) ''transformed'' (transformed_suffix env) fs1 = (t, fs2)"
    by (meson surj_pair)
  obtain r fs3 where r: "tr filename (case t of Inr p \<Rightarrow> p | Inl e \<Rightarrow> '''') fs2 = (r, fs3)"
    by (meson surj_pair)
  from assms d t r show ?thesis
    by (auto simp: populateCache_def split: option.splits if_splits sum.splits)
qed

lemma cache_Add_entry:
  assumes "snd (fst (cache_Add k p s ci w)) = None"
  shows "\<exists>e. map_of (Entries (cache (snd (cache_Add k p s ci w)))) k = Some e \<and> Size e = s"
proof (cases "pickVictims (usedSpace (Entries (cache w)) + s - maxSizeInBytes (cache w))
                (candidates (Entries (cache w)))")
  case None
  with assms show ?thesis by (simp add: cache_Add_def)
next
  case (Some victims)
  then show ?thesis
    unfolding cache_Add_def Let_def by (simp add: update_conv')
qed

lemma fetchCachedFile_fresh_size:
  assumes "\<not> limiter_cancelled env"
    and "cache_Get k w = ((cur, curCI, getErr), w1)"
    and "populateCache md5 c k curCI (transformer c) env w1 = ((dl, False, sz, None), w2)"
  shows "fst (snd (fst (fetchCachedFile md5 c k env w))) = sz"
proof (cases "isCacheable (d_cachingInfo dl)")
  case True
  obtain nr err w4 where a:
    "cache_Add k (d_path dl) (d_size dl) (d_cachingInfo dl) (closeReader cur w2) = ((nr, err), w4)"
    by (metis surj_pair)
  obtain f e' where t: "tempFileRemoveOnClose (d_path dl) (files w4) = (f, e')"
    by (meson surj_pair)
  from assms True a t show ?thesis
    by (simp add: fetchCachedFile_def Let_def)
next
  case False
  obtain f e' where t:
    "tempFileRemoveOnClose (d_path dl) (files (cache_Remove k (closeReader cur w2))) = (f, e')"
    by (meson surj_pair)
  from assms False t show ?thesis
    by (simp add: fetchCachedFile_def Let_def)
qed

lemma fetchCachedFile_fresh_entry:
  assumes "\<not> limiter_cancelled env"
    and "cache_Get k w = ((cur, curCI, getErr), w1)"
    and "populateCache md5 c k curCI (transformer c) env w1 = ((dl, False, sz, None), w2)"
    and "isCacheable (d_cachingInfo dl)"
    and "snd (fst (cache_Add k (d_path dl) (d_size dl) (d_cachingInfo dl) (closeReader cur w2))) =
           None"
  shows "\<exists>e. map_of (Entries (cache (snd (fetchCachedFile md5 c k env w)))) k = Some e \<and>
             Size e = d_size dl"
proof -
  obtain nr err w4 where a:
    "cache_Add k (d_path dl) (d_size dl) (d_cachingInfo dl) (closeReader cur w2) = ((nr, err), w4)"
    by (metis surj_pair)
  with assms(5) have e: "err = None" by simp
  from assms(1-4) a e have "snd (fetchCachedFile md5 c k env w) = w4"
    by (simp add: fetchCachedFile_def Let_def)
  with cache_Add_entry[OF assms(5)] a show ?thesis by simp
qed

lemma fetchUncachedFile_size:
  assumes "populateCache md5 c ''uncached'' zeroCachingInfo tr env w = ((dl, warm, sz, None), w2)"
  shows "fst (snd (fst (fetchUncachedFile md5 c tr env w))) = sz"
proof -
  obtain f e' where t: "tempFileRemoveOnClose (d_path dl) (files w2) = (f, e')"
    by (meson surj_pair)
  from assms t show ?thesis by (simp add: fetchUncachedFile_def)
qed

text \<open>
  C10. A call of \<open>Fetch\<close> that downloads fresh bytes returns as size the size of the
  downloaded file as \<open>os.Stat\<close> reports it before the transformer runs, whether the
  result is cached or not and also for the empty cache key; the entry that \<open>Add\<close>
  stores has the size the transformer reported, so the two differ when the transformer
  reports another size than that of its input.
\<close>

theorem returned_size_is_download_size:
  "(cacheKey \<noteq> '''' \<and> \<not> limiter_cancelled env \<and>
    cache_Get (fingerprint md5 cacheKey) w = ((cur, curCI, getErr), w1) \<and>
    populateCache md5 c (fingerprint md5 cacheKey) curCI (transformer c) env w1 =
      ((dl, False, sz, None), w2)
    \<longrightarrow> fst (snd (fst (Fetch md5 c cacheKey env w))) = sz \<and>
        (\<exists>filename fs1 fs2.
           Download md5 (TempFile (uncachedPath c) (fingerprint md5 cacheKey @ ''-'')) curCI
             (net env) (files w1) = ((filename, d_cachingInfo dl, None), fs1) \<and>
           Stat filename fs1 = Inr sz \<and>
           transformer c filename (d_path dl) fs2 = (Inr (d_size dl), files w2)) \<and>
        (isCacheable (d_cachingInfo dl) \<and>
         snd (fst (cache_Add (fingerprint md5 cacheKey) (d_path dl) (d_size dl)
                     (d_cachingInfo dl) (closeReader cur w2))) = None
         \<longrightarrow> (\<exists>e. map_of (Entries (cache (snd (Fetch md5 c cacheKey env w))))
                      (fingerprint md5 cacheKey) = Some e \<and>
                   Size e = d_size dl \<and>
                   (d_size dl \<noteq> sz \<longrightarrow>
                      Size e \<noteq> fst (snd (fst (Fetch md5 c cacheKey env w))))))) \<and>
   (populateCache md5 c ''uncached'' zeroCachingInfo (transformer c) env w =
      ((dl', False, sz', None), w2')
    \<longrightarrow> fst (snd (fst (Fetch md5 c '''' env w))) = sz' \<and>
        (\<exists>filename fs1 fs2.
           Download md5 (TempFile (uncachedPath c) ''uncached-'') zeroCachingInfo
             (net env) (files w) = ((filename, d_cachingInfo dl', None), fs1) \<and>
           Stat filename fs1 = Inr sz' \<and>
           transformer c filename (d_path dl') fs2 = (Inr (d_size dl'), files w2')))"
proof (intro conjI impI)
  assume h: "cacheKey \<noteq> '''' \<and> \<not> limiter_cancelled env \<and>
    cache_Get (fingerprint md5 cacheKey) w = ((cur, curCI, getErr), w1) \<and>
    populateCache md5 c (fingerprint md5 cacheKey) curCI (transformer c) env w1 =
      ((dl, False, sz, None), w2)"
  then have k: "cacheKey \<noteq> ''''" and l: "\<not> limiter_cancelled env"
    and g: "cache_Get (fingerprint md5 cacheKey) w = ((cur, curCI, getErr), w1)"
    and pc: "populateCache md5 c (fingerprint md5 cacheKey) curCI (transformer c) env w1 =
      ((dl, False, sz, None), w2)"
    by blast+
  show s: "fst (snd (fst (Fetch md5 c cacheKey env w))) = sz"
    using fetchCachedFile_fresh_size[OF l g pc] k by (simp add: Fetch_def)
  show "\<exists>filename fs1 fs2.
           Download md5 (TempFile (uncachedPath c) (fingerprint md5 cacheKey @ ''-'')) curCI
             (net env) (files w1) = ((filename, d_cachingInfo dl, None), fs1) \<and>
           Stat filename fs1 = Inr sz \<and>
           transformer c filename (d_path dl) fs2 = (Inr (d_size dl), files w2)"
    using populateCache_fresh[OF pc] by blast
  assume a: "isCacheable (d_cachingInfo dl) \<and>
         snd (fst (cache_Add (fingerprint md5 cacheKey) (d_path dl) (d_size dl)
                     (d_cachingInfo dl) (closeReader cur w2))) = None"
  from fetchCachedFile_fresh_entry[OF l g pc a[THEN conjunct1] a[THEN conjunct2]] k s
  show "\<exists>e. map_of (Entries (cache (snd (Fetch md5 c cacheKey env w))))
                      (fingerprint md5 cacheKey) = Some e \<and>
                   Size e = d_size dl \<and>
                   (d_size dl \<noteq> sz \<longrightarrow>
                      Size e \<noteq> fst (snd (fst (Fetch md5 c cacheKey env w))))"
    by (auto simp: Fetch_def)
next
  assume pc: "populateCache md5 c ''uncached'' zeroCachingInfo (transformer c) env w =
      ((dl', False, sz', None), w2')"
  show "fst (snd (fst (Fetch md5 c '''' env w))) = sz'"
    using fetchUncachedFile_size[OF pc] by (simp add: Fetch_def)
  show "\<exists>filename fs1 fs2.
           Download md5 (TempFile (uncachedPath c) ''uncached-'') zeroCachingInfo
             (net env) (files w) = ((filename, d_cachingInfo dl', None), fs1) \<and>
           Stat filename fs1 = Inr sz' \<and>
           transformer c filename (d_path dl') fs2 = (Inr (d_size dl'), files w2')"
    using populateCache_fresh[OF pc] by auto
qed

lemma doubling_transform_sample:
  "doubling_transform ''/u/d41d8cd98f00b204e9800998ecf8427e-1'' ''/u/transformed2''
     (fs(''/u/d41d8cd98f00b204e9800998ecf8427e-1'' \<mapsto> File bs, ''/u/transformed2'' \<mapsto> File [])) =
   (Inr (int (length (bs @ bs))),
    (fs(''/u/d41d8cd98f00b204e9800998ecf8427e-1'' \<mapsto> File bs,
        ''/u/transformed2'' \<mapsto> File (bs @ bs)))(''/u/d41d8cd98f00b204e9800998ecf8427e-1'' := None))"
  by (simp add: doubling_transform_def)

theorem returned_size_is_download_size_witness:
  "fst (snd (fst (Fetch sample_md5 doubling_downloader ''k'' (sample_env foo_response)
                    (empty_world 1024)))) = 3 \<and>
   map_option Size
     (map_of (Entries (cache (snd (Fetch sample_md5 doubling_downloader ''k''
                                     (sample_env foo_response) (empty_world 1024)))))
        ''d41d8cd98f00b204e9800998ecf8427e'') = Some 6"
proof -
  let ?w = "empty_world 1024"
  let ?fp = "fingerprint sample_md5 ''k''"
  let ?src = "''/u/d41d8cd98f00b204e9800998ecf8427e-1''"
  let ?dl = "\<lparr>d_path = ''/u/transformed2'', d_size = 6,
              d_cachingInfo = \<lparr>ETag = ''foo'', LastModified = ''''\<rparr>\<rparr>"
  let ?fs3 = "((files ?w)(?src \<mapsto> File [55, 55, 55],
                 ''/u/transformed2'' \<mapsto> File ([55, 55, 55] @ [55, 55, 55])))(?src := None)"
  let ?w2 = "?w\<lparr>files := ?fs3\<rparr>"
  have k: "''k'' \<noteq> ''''" and l: "\<not> limiter_cancelled (sample_env foo_response)"
    by (simp_all add: sample_env_fields)
  have g: "cache_Get ?fp ?w = ((None, zeroCachingInfo, Some EntryNotFound), ?w)"
    by (simp add: cache_Get_def empty_world_def NewCache_def)
  have pc: "populateCache sample_md5 doubling_downloader ?fp zeroCachingInfo
              (transformer doubling_downloader) (sample_env foo_response) ?w =
            ((?dl, False, 3, None), ?w2)"
    using sample_populate[where w = ?w and r = foo_response and tr = doubling_transform
            and ci = zeroCachingInfo and n = 6 and ?fs3.0 = ?fs3 and c = doubling_downloader]
    by (simp add: fingerprint_k empty_world_def fs_u_def foo_response_def not_a_digest
          doubling_transform_sample doubling_downloader_def)
  have c: "isCacheable (d_cachingInfo ?dl)" by (simp add: isCacheable_def)
  have a: "snd (fst (cache_Add ?fp (d_path ?dl) (d_size ?dl) (d_cachingInfo ?dl)
                      (closeReader None ?w2))) = None"
    by (simp add: cache_Add_def closeReader_def empty_world_def NewCache_def usedSpace_def
          candidates_def Let_def)
  note t = returned_size_is_download_size[where cacheKey = "''k''" and ?md5.0 = sample_md5
      and env = "sample_env foo_response" and w = ?w and c = doubling_downloader
      and cur = None and curCI = zeroCachingInfo and getErr = "Some EntryNotFound" and ?w1.0 = ?w
      and dl = ?dl and sz = 3 and ?w2.0 = ?w2, THEN conjunct1, rule_format]
  have h: "''k'' \<noteq> '''' \<and> \<not> limiter_cancelled (sample_env foo_response) \<and>
      cache_Get ?fp ?w = ((None, zeroCachingInfo, Some EntryNotFound), ?w) \<and>
      populateCache sample_md5 doubling_downloader ?fp zeroCachingInfo
        (transformer doubling_downloader) (sample_env foo_response) ?w =
      ((?dl, False, 3, None), ?w2)"
    using k l g pc by blast
  from t[OF h] have s: "fst (snd (fst (Fetch sample_md5 doubling_downloader ''k''
                    (sample_env foo_response) ?w))) = 3"
    and e: "isCacheable (d_cachingInfo ?dl) \<and>
         snd (fst (cache_Add ?fp (d_path ?dl) (d_size ?dl) (d_cachingInfo ?dl)
                     (closeReader None ?w2))) = None
         \<longrightarrow> (\<exists>e. map_of (Entries (cache (snd (Fetch sample_md5 doubling_downloader ''k''
                                     (sample_env foo_response) ?w)))) ?fp = Some e \<and>
                   Size e = d_size ?dl \<and>
                   (d_size ?dl \<noteq> 3 \<longrightarrow>
                      Size e \<noteq> fst (snd (fst (Fetch sample_md5 doubling_downloader ''k''
                                     (sample_env foo_response) ?w)))))"
    by blast+
  from e c a obtain e where "map_of (Entries (cache (snd (Fetch sample_md5 doubling_downloader ''k''
                                     (sample_env foo_response) ?w)))) ?fp = Some e" "Size e = 6"
    by auto
  with s show ?thesis by (simp add: fingerprint_k)
qed

section \<open>Properties of the constructor\<close>

lemma comps_valid: "c \<in> set (comps p) \<Longrightarrow> c \<noteq> [] \<and> CHR ''/'' \<notin> set c"
  by (induction p rule: comps.induct) (auto dest: set_takeWhileD split: if_splits)

lemma comps_nonempty: "comps p \<noteq> [] \<Longrightarrow> p \<noteq> ''''"
  by auto

lemma comps_append:
  assumes "c \<noteq> []" and "CHR ''/'' \<notin> set c" and "rest = [] \<or> hd rest = CHR ''/''"
  shows "comps (c @ rest) = c # comps rest"
proof -
  obtain x xs where c: "c = x # xs" using assms(1) by (cases c) auto
  have all: "\<forall>y \<in> set xs. y \<noteq> CHR ''/''" and x: "x \<noteq> CHR ''/''" using assms(2) c by auto
  have t: "takeWhile (\<lambda>y. y \<noteq> CHR ''/'') (xs @ rest) = xs"
    using all assms(3) by (cases rest) (auto simp: takeWhile_append2)
  have d: "dropWhile (\<lambda>y. y \<noteq> CHR ''/'') (xs @ rest) = rest"
    using all assms(3) by (cases rest) (auto simp: dropWhile_append2)
  show ?thesis using x by (simp add: c t d)
qed

lemma comps_slashed:
  assumes "\<forall>c \<in> set cs. c \<noteq> [] \<and> CHR ''/'' \<notin> set c"
  shows "comps (concat (map (\<lambda>c. CHR ''/'' # c) cs)) = cs"
  using assms
proof (induction cs)
  case Nil
  then show ?case by simp
next
  case (Cons c cs)
  have r: "concat (map (\<lambda>c. CHR ''/'' # c) cs) = [] \<or>
           hd (concat (map (\<lambda>c. CHR ''/'' # c) cs)) = CHR ''/''"
    by (cases cs) auto
  from Cons show ?case by (simp add: comps_append[OF _ _ r])
qed

lemma joinPath_parts:
  assumes "\<forall>c \<in> set cs. c \<noteq> [] \<and> CHR ''/'' \<notin> set c" and "cs \<noteq> []"
  shows "comps (joinPath ab cs) = cs" and "isAbs (joinPath ab cs) = ab"
proof -
  obtain c cs' where cs: "cs = c # cs'" using assms(2) by (cases cs) auto
  have c: "c \<noteq> []" "CHR ''/'' \<notin> set c" using assms(1) cs by auto
  have r: "concat (map (\<lambda>c. CHR ''/'' # c) cs') = [] \<or>
           hd (concat (map (\<lambda>c. CHR ''/'' # c) cs')) = CHR ''/''"
    by (cases cs') auto
  have rest: "comps (concat (map (\<lambda>c. CHR ''/'' # c) cs')) = cs'"
    using assms(1) cs by (intro comps_slashed) auto
  show "comps (joinPath ab cs) = cs"
    using comps_append[OF c r] rest by (simp add: joinPath_def cs)
  show "isAbs (joinPath ab cs) = ab"
    using c by (cases c) (auto simp: joinPath_def cs isAbs_def)
qed

lemma resolve_noDots:
  "list_all (\<lambda>c. c \<noteq> ''.'' \<and> c \<noteq> ''..'') cs \<Longrightarrow> resolve fs0 ab cur cs = Some (cur @ cs)"
  by (induction cs arbitrary: cur) auto

lemma RemoveAll_plain:
  assumes "comps p \<noteq> []" and "noDots p" and "\<not> hasNul p"
  shows "RemoveAll p fs0 = (\<lambda>q. if inside p q then None else fs0 q)"
proof -
  have "last (comps p) \<in> set (comps p)" using assms(1) by simp
  with assms(2) have l: "last (comps p) \<noteq> ''.''" "last (comps p) \<noteq> ''..''"
    by (auto simp: noDots_def list_all_iff)
  show ?thesis
    using assms l comps_nonempty[OF assms(1)] resolve_noDots[of "comps p" fs0 "isAbs p" "[]"]
    by (simp add: RemoveAll_def noDots_def inside_def)
qed

lemma mkdirWalk_plain:
  assumes "list_all (\<lambda>c. c \<noteq> ''.'' \<and> c \<noteq> ''..'') cs"
    and "\<forall>d \<in> set (dirsTo ab cur cs). \<not> isRegular (fs0 d)"
  shows "mkdirWalk ab cur cs fs0 =
           (None, (\<lambda>q. if q \<in> set (dirsTo ab cur cs) \<and> fs0 q = None then Some Dir else fs0 q))"
  using assms
proof (induction cs arbitrary: cur fs0)
  case Nil
  then show ?case by simp
next
  case (Cons c cs)
  let ?n = "joinPath ab (cur @ [c])"
  from Cons.prems have c: "c \<noteq> ''.''" "c \<noteq> ''..''"
    and cs: "list_all (\<lambda>c. c \<noteq> ''.'' \<and> c \<noteq> ''..'') cs" by auto
  from Cons.prems(2) have n: "\<not> isRegular (fs0 ?n)"
    and rest: "\<forall>d \<in> set (dirsTo ab (cur @ [c]) cs). \<not> isRegular (fs0 d)" by auto
  show ?case
  proof (cases "fs0 ?n")
    case None
    have r: "\<forall>d \<in> set (dirsTo ab (cur @ [c]) cs). \<not> isRegular ((fs0(?n \<mapsto> Dir)) d)"
      using rest by (auto simp: isRegular_def)
    have "mkdirWalk ab cur (c # cs) fs0 = mkdirWalk ab (cur @ [c]) cs (fs0(?n \<mapsto> Dir))"
      using c None by simp
    also have "\<dots> = (None, (\<lambda>q. if q \<in> set (dirsTo ab (cur @ [c]) cs) \<and>
                                  (fs0(?n \<mapsto> Dir)) q = None
                               then Some Dir else (fs0(?n \<mapsto> Dir)) q))"
      by (rule Cons.IH[OF cs r])
    also have "(\<lambda>q. if q \<in> set (dirsTo ab (cur @ [c]) cs) \<and> (fs0(?n \<mapsto> Dir)) q = None
                    then Some Dir else (fs0(?n \<mapsto> Dir)) q) =
               (\<lambda>q. if q \<in> set (dirsTo ab cur (c # cs)) \<and> fs0 q = None
                    then Some Dir else fs0 q)"
      using None by (intro ext) auto
    finally show ?thesis .
  next
    case (Some nd)
    with n have d: "fs0 ?n = Some Dir" by (cases nd) (auto simp: isRegular_def)
    have "mkdirWalk ab cur (c # cs) fs0 = mkdirWalk ab (cur @ [c]) cs fs0"
      using c d by simp
    also have "\<dots> = (None, (\<lambda>q. if q \<in> set (dirsTo ab (cur @ [c]) cs) \<and> fs0 q = None
                               then Some Dir else fs0 q))"
      by (rule Cons.IH[OF cs rest])
    also have "(\<lambda>q. if q \<in> set (dirsTo ab (cur @ [c]) cs) \<and> fs0 q = None
                    then Some Dir else fs0 q) =
               (\<lambda>q. if q \<in> set (dirsTo ab cur (c # cs)) \<and> fs0 q = None
                    then Some Dir else fs0 q)"
      using d by (intro ext) auto
    finally show ?thesis .
  qed
qed

lemma dirsTo_shape:
  "d \<in> set (dirsTo ab cur cs) \<Longrightarrow> \<exists>pre. pre \<noteq> [] \<and> prefix pre cs \<and> d = joinPath ab (cur @ pre)"
proof (induction cs arbitrary: cur)
  case Nil
  then show ?case by simp
next
  case (Cons c cs)
  show ?case
  proof (cases "d = joinPath ab (cur @ [c])")
    case True
    then show ?thesis by (intro exI[of _ "[c]"]) simp
  next
    case False
    with Cons.prems have "d \<in> set (dirsTo ab (cur @ [c]) cs)" by simp
    from Cons.IH[OF this] obtain pre where
      "pre \<noteq> []" "prefix pre cs" "d = joinPath ab ((cur @ [c]) @ pre)" by blast
    then show ?thesis by (intro exI[of _ "c # pre"]) simp
  qed
qed

lemma dirsTo_Nil: "dirsTo ab cur cs = [] \<longleftrightarrow> cs = []"
  by (cases cs) auto

lemma dirsTo_last: "cs \<noteq> [] \<Longrightarrow> last (dirsTo ab cur cs) = joinPath ab (cur @ cs)"
  by (induction cs arbitrary: cur) (auto simp: dirsTo_Nil)

lemma dirsTo_inside:
  assumes "d \<in> set (dirsTo (isAbs p) [] (comps p))"
  shows "inside d p"
proof -
  from dirsTo_shape[OF assms] obtain pre where pre: "pre \<noteq> []" "prefix pre (comps p)"
    and d: "d = joinPath (isAbs p) pre" by auto
  have v: "\<forall>c \<in> set pre. c \<noteq> [] \<and> CHR ''/'' \<notin> set c"
    using set_mono_prefix[OF pre(2)] comps_valid[of _ p] by blast
  from joinPath_parts[OF v pre(1), of "isAbs p"] pre(2) show ?thesis
    by (simp add: inside_def d)
qed

lemma dirsAbove_not_inside:
  assumes "d \<in> set (dirsAbove p)"
  shows "\<not> inside p d" and "inside d p"
proof -
  let ?ds = "dirsTo (isAbs p) [] (comps p)"
  from assms have m: "d \<in> set ?ds" by (auto simp: dirsAbove_def dest: in_set_butlastD)
  then show "inside d p" by (rule dirsTo_inside)
  from assms obtain i where i: "i < length ?ds - 1" "d = ?ds ! i"
    by (auto simp: dirsAbove_def in_set_conv_nth nth_butlast)
  have len: "length (dirsTo ab cur cs) = length cs" for ab cur cs
    by (induction cs arbitrary: cur) auto
  have nth: "i < length cs \<Longrightarrow> dirsTo ab cur cs ! i = joinPath ab (cur @ take (Suc i) cs)"
    for ab cur cs i
    by (induction cs arbitrary: cur i) (auto simp: nth_Cons' take_Cons')
  from i have il: "Suc i < length (comps p)" by (simp add: len)
  then have d: "d = joinPath (isAbs p) (take (Suc i) (comps p))"
    using i nth[of i "comps p" "isAbs p" "[]"] by simp
  have v: "\<forall>c \<in> set (take (Suc i) (comps p)). c \<noteq> [] \<and> CHR ''/'' \<notin> set c"
    using comps_valid[of _ p] by (auto dest: in_set_takeD)
  have ne: "take (Suc i) (comps p) \<noteq> []" using il by auto
  from joinPath_parts(1)[OF v ne, of "isAbs p"] il
  have "length (comps d) < length (comps p)" by (simp add: d)
  then show "\<not> inside p d" by (auto simp: inside_def prefix_def)
qed

lemma cleanPath_parts:
  assumes "comps p \<noteq> []"
  shows "comps (cleanPath p) = comps p" and "isAbs (cleanPath p) = isAbs p"
  using joinPath_parts[of "comps p" "isAbs p"] comps_valid[of _ p] assms
  by (auto simp: cleanPath_def)

lemma New_files:
  assumes "comps p \<noteq> []" and "noDots p"
    and "\<forall>d \<in> set (dirsAbove p). \<not> isRegular (fs0 d)"
    and "\<not> hasNul p"
  shows "files (snd (New p u m tr fs0)) =
           (\<lambda>q. if q = cleanPath p then Some Dir
                else if inside p q then None
                else if q \<in> set (dirsAbove p) \<and> fs0 q = None then Some Dir
                else fs0 q)"
proof -
  let ?ds = "dirsTo (isAbs p) [] (comps p)"
  let ?fs1 = "RemoveAll p fs0"
  have fs1: "?fs1 = (\<lambda>q. if inside p q then None else fs0 q)"
    by (rule RemoveAll_plain[OF assms(1,2,4)])
  have ne: "?ds \<noteq> []" using assms(1) by (simp add: dirsTo_Nil)
  have l: "last ?ds = cleanPath p"
    using dirsTo_last[OF assms(1), of "isAbs p" "[]"] by (simp add: cleanPath_def)
  have "?ds = dirsAbove p @ [cleanPath p]"
    using append_butlast_last_id[OF ne] l by (simp add: dirsAbove_def)
  then have ds: "set ?ds = insert (cleanPath p) (set (dirsAbove p))"
    by simp
  have self: "inside p (cleanPath p)"
    using cleanPath_parts[OF assms(1)] by (simp add: inside_def)
  have reg: "\<forall>d \<in> set ?ds. \<not> isRegular (?fs1 d)"
    using assms(3) self by (auto simp: ds fs1 isRegular_def)
  have n: "list_all (\<lambda>c. c \<noteq> ''.'' \<and> c \<noteq> ''..'') (comps p)"
    using assms(2) by (simp add: noDots_def)
  have "snd (MkdirAll p ?fs1) =
          (\<lambda>q. if q \<in> set ?ds \<and> ?fs1 q = None then Some Dir else ?fs1 q)"
    using mkdirWalk_plain[OF n reg] comps_nonempty[OF assms(1)] assms(4)
    by (simp add: MkdirAll_def)
  also have "\<dots> = (\<lambda>q. if q = cleanPath p then Some Dir
                else if inside p q then None
                else if q \<in> set (dirsAbove p) \<and> fs0 q = None then Some Dir
                else fs0 q)"
    using self dirsAbove_not_inside(1)[of _ p] by (intro ext) (auto simp: ds fs1)
  finally show ?thesis by (simp add: New_def)
qed

text \<open>
  C8, as the code has it. Let the cache path have a component, none of them \<open>.\<close> or
  \<open>..\<close>, and no zero byte; let no directory above it be a regular file, nor the path
  itself if it is written with a slash at its end. Then after \<open>New\<close> the cache directory, under its
  name without repeated and trailing slashes, is a directory with nothing in it, and
  the index is empty. Of the other paths, the directories above the cache directory
  are made where they were missing, and every path of the kind of the cache path
  (absolute or relative) that is neither inside the cache directory nor one of the
  directories above it is left as it was: the uncached directory is neither made nor
  emptied, unless it lies inside the cache directory or above it.
\<close>

theorem New_cache_directory:
  assumes "comps cachedPath \<noteq> []" and "noDots cachedPath"
    and "\<forall>d \<in> set (dirsAbove cachedPath). \<not> isRegular (fs0 d)"
    and "last cachedPath = CHR ''/'' \<longrightarrow> \<not> isRegular (fs0 (cleanPath cachedPath))"
    and "\<not> hasNul cachedPath"
  shows "files (snd (New cachedPath uncachedPath' maxSize tr fs0)) (cleanPath cachedPath) =
           Some Dir \<and>
         (\<forall>q. inside cachedPath q \<and> q \<noteq> cleanPath cachedPath \<longrightarrow>
              files (snd (New cachedPath uncachedPath' maxSize tr fs0)) q = None) \<and>
         Entries (cache (snd (New cachedPath uncachedPath' maxSize tr fs0))) = [] \<and>
         (\<forall>d \<in> set (dirsAbove cachedPath).
              files (snd (New cachedPath uncachedPath' maxSize tr fs0)) d =
                (if fs0 d = None then Some Dir else fs0 d)) \<and>
         (\<forall>q. isAbs q = isAbs cachedPath \<and> \<not> inside cachedPath q \<and> \<not> inside q cachedPath \<longrightarrow>
              files (snd (New cachedPath uncachedPath' maxSize tr fs0)) q = fs0 q)"
proof -
  note f = New_files[OF assms(1-3) assms(5), of uncachedPath' maxSize tr]
  have self: "inside cachedPath (cleanPath cachedPath)"
    using cleanPath_parts[OF assms(1)] by (simp add: inside_def)
  have a: "files (snd (New cachedPath uncachedPath' maxSize tr fs0)) (cleanPath cachedPath) =
             Some Dir"
    by (simp add: f)
  have b: "files (snd (New cachedPath uncachedPath' maxSize tr fs0)) q = None"
    if "inside cachedPath q \<and> q \<noteq> cleanPath cachedPath" for q
    using that by (simp add: f)
  have c: "Entries (cache (snd (New cachedPath uncachedPath' maxSize tr fs0))) = []"
    by (simp add: New_def NewCache_def)
  have d: "files (snd (New cachedPath uncachedPath' maxSize tr fs0)) d =
             (if fs0 d = None then Some Dir else fs0 d)"
    if "d \<in> set (dirsAbove cachedPath)" for d
    using that dirsAbove_not_inside(1)[OF that] self by (auto simp: f)
  have e: "files (snd (New cachedPath uncachedPath' maxSize tr fs0)) q = fs0 q"
    if "isAbs q = isAbs cachedPath \<and> \<not> inside cachedPath q \<and> \<not> inside q cachedPath" for q
    using that self dirsAbove_not_inside(2)[of q cachedPath] by (auto simp: f)
  from a b c d e show ?thesis by blast
qed

text \<open>
  With the empty path as cache directory both calls of \<open>New\<close> leave the file system
  alone: \<open>os.RemoveAll\<close> does nothing and \<open>os.MkdirAll\<close> fails.
\<close>

lemma New_empty_path: "files (snd (New '''' u m tr fs0)) = fs0"
  by (simp add: New_def RemoveAll_def MkdirAll_def)

lemma comps_var_c: "comps ''/var/c/'' = [''var'', ''c'']" "comps ''/var/c'' = [''var'', ''c'']"
  by simp_all

theorem New_cache_directory_witness:
  "files (snd (New ''/var/c/'' ''/u'' 1024 NoopTransform stale_fs)) ''/var/c'' = Some Dir \<and>
   files (snd (New ''/var/c/'' ''/u'' 1024 NoopTransform stale_fs)) ''/var/c/old'' = None \<and>
   stale_fs ''/var/c/old'' = Some (File [1]) \<and>
   files (snd (New ''/var/c/'' ''/u'' 1024 NoopTransform stale_fs)) ''/var'' = Some Dir \<and>
   files (snd (New ''/var/c/'' ''/u'' 1024 NoopTransform stale_fs)) ''/u/stale'' = Some (File [2])"
proof -
  let ?w = "snd (New ''/var/c/'' ''/u'' 1024 NoopTransform stale_fs)"
  have cp: "cleanPath ''/var/c/'' = ''/var/c''"
    by (simp add: cleanPath_def joinPath_def isAbs_def)
  have da: "dirsAbove ''/var/c/'' = [''/var'']"
    by (simp add: dirsAbove_def joinPath_def isAbs_def)
  have h1: "comps ''/var/c/'' \<noteq> []" by simp
  have h2: "noDots ''/var/c/''" by (simp add: noDots_def)
  have h3: "\<forall>d \<in> set (dirsAbove ''/var/c/''). \<not> isRegular (stale_fs d)"
    by (simp add: da stale_fs_def isRegular_def)
  have h4: "last ''/var/c/'' = CHR ''/'' \<longrightarrow> \<not> isRegular (stale_fs (cleanPath ''/var/c/''))"
    by (simp add: cp stale_fs_def isRegular_def)
  have h5: "\<not> hasNul ''/var/c/''" by (simp add: hasNul_def)
  note t = New_cache_directory[OF h1 h2 h3 h4 h5, of "''/u''" 1024 NoopTransform]
  from t have a: "files ?w (cleanPath ''/var/c/'') = Some Dir" by blast
  from t have "inside ''/var/c/'' ''/var/c/old'' \<and> ''/var/c/old'' \<noteq> cleanPath ''/var/c/'' \<longrightarrow>
      files ?w ''/var/c/old'' = None"
    by blast
  then have b: "files ?w ''/var/c/old'' = None"
    by (simp add: inside_def isAbs_def cp)
  from t have "\<forall>d \<in> set (dirsAbove ''/var/c/'').
      files ?w d = (if stale_fs d = None then Some Dir else stale_fs d)"
    by blast
  then have c: "files ?w ''/var'' = Some Dir"
    by (simp add: da stale_fs_def)
  from t have "isAbs ''/u/stale'' = isAbs ''/var/c/'' \<and> \<not> inside ''/var/c/'' ''/u/stale'' \<and>
      \<not> inside ''/u/stale'' ''/var/c/'' \<longrightarrow> files ?w ''/u/stale'' = stale_fs ''/u/stale''"
    by blast
  then have d: "files ?w ''/u/stale'' = Some (File [2])"
    by (simp add: inside_def isAbs_def stale_fs_def)
  from a b c d show ?thesis by (simp add: cp stale_fs_def)
qed

text \<open>
  C8 as stated fails for the uncached directory: a file in it from an earlier run is
  still there after \<open>New\<close>, and an uncached directory that does not exist is not made.
\<close>

theorem New_uncached_directory_counterexample:
  "files (snd (New ''/var/c'' ''/u'' 1024 NoopTransform stale_fs)) ''/u/stale'' = Some (File [2]) \<and>
   files (snd (New ''/var/c'' ''/u'' 1024 NoopTransform Map.empty)) ''/u'' = None"
proof -
  have cp: "cleanPath ''/var/c'' = ''/var/c''"
    by (simp add: cleanPath_def joinPath_def isAbs_def)
  have da: "dirsAbove ''/var/c'' = [''/var'']"
    by (simp add: dirsAbove_def joinPath_def isAbs_def)
  have h1: "comps ''/var/c'' \<noteq> []" by simp
  have h2: "noDots ''/var/c''" by (simp add: noDots_def)
  have hn: "\<not> hasNul ''/var/c''" by (simp add: hasNul_def)
  have a: "\<forall>d \<in> set (dirsAbove ''/var/c''). \<not> isRegular (stale_fs d)"
    by (simp add: da stale_fs_def isRegular_def)
  have b: "\<forall>d \<in> set (dirsAbove ''/var/c''). \<not> isRegular (Map.empty d)"
    by (simp add: isRegular_def)
  have "files (snd (New ''/var/c'' ''/u'' 1024 NoopTransform stale_fs)) ''/u/stale'' =
          stale_fs ''/u/stale''"
    by (simp add: New_files[OF h1 h2 a hn] cp da inside_def isAbs_def)
  moreover have "files (snd (New ''/var/c'' ''/u'' 1024 NoopTransform Map.empty)) ''/u'' = None"
    by (simp add: New_files[OF h1 h2 b hn] cp da inside_def isAbs_def)
  ultimately show ?thesis by (simp add: stale_fs_def)
qed

section \<open>Properties of the gate\<close>

lemma holds_held: "holds p k \<longleftrightarrow> (\<exists>ch. held p = Some (k, ch))"
  by (cases p) auto

lemma gate_inv_init: "gate_inv gate_init"
  by (simp add: gate_inv_def gate_init_def)

lemma set_phase_fields [simp]:
  "inProgress (set_phase t p s) = inProgress s" "closed (set_phase t p s) = closed s"
  "phase (set_phase t p s) = (phase s)(t := p)"
  by (simp_all add: set_phase_def)

lemma gate_inv_not_holding:
  assumes "gate_inv s" and "held p = None" and "held (phase s t) = None"
  shows "gate_inv (set_phase t p s)"
  using assms unfolding gate_inv_def holds_held by (auto split: if_splits)

lemma gate_inv_advance:
  assumes "gate_inv s" and "held (phase s t) = Some (k, ch)" and "held p = Some (k, ch)"
  shows "gate_inv (set_phase t p s)"
  using assms unfolding gate_inv_def holds_held
  by (auto split: if_splits)

lemma gate_inv_install:
  assumes "gate_inv s" and "held (phase s t) = None" and "inProgress s k = None"
  shows "gate_inv (s\<lparr>inProgress := (inProgress s)(k \<mapsto> n), next_chan := m,
                      phase := (phase s)(t := Probing k n)\<rparr>)"
  using assms unfolding gate_inv_def holds_held
  by (auto split: if_splits)

lemma gate_inv_release:
  assumes "gate_inv s" and "held (phase s t) = Some (k, ch)"
  shows "gate_inv (release t k ch s)"
proof -
  have other: "t' = t" if "held (phase s t') = Some (k, ch')" for t' ch'
    using assms that unfolding gate_inv_def holds_held by blast
  show ?thesis
    using assms other unfolding gate_inv_def holds_held
    by (auto split: if_splits)
qed

lemma step_inv:
  assumes "gate_inv s" and "step a s = Some s'"
  shows "gate_inv s'"
proof (cases a)
  case (Call t k)
  with assms show ?thesis
    by (auto split: phase.splits intro: gate_inv_not_holding)
next
  case (Try t)
  with assms show ?thesis
    by (auto split: phase.splits option.splits
             intro: gate_inv_not_holding gate_inv_install[where s = s])
next
  case (Wake t)
  with assms show ?thesis
    by (auto split: phase.splits if_splits intro: gate_inv_not_holding)
next
  case (Cancel t)
  with assms show ?thesis
    by (auto split: phase.splits intro: gate_inv_not_holding)
next
  case (Probe t)
  with assms show ?thesis
    by (auto split: phase.splits intro: gate_inv_advance)
next
  case (Downloaded t)
  with assms show ?thesis
    by (auto split: phase.splits intro: gate_inv_advance)
next
  case (Release t)
  with assms show ?thesis
    by (auto split: phase.splits simp del: release.simps intro: gate_inv_release)
qed

lemma run_inv: "gate_inv s \<Longrightarrow> run as s = Some s' \<Longrightarrow> gate_inv s'"
  by (induction as arbitrary: s) (auto split: option.splits dest: step_inv)

lemma waiter_next:
  assumes "step a s = Some s'" and "waiting (phase s t)"
  shows "\<not> holds (phase s' t) k"
  using assms
  by (cases a; cases "phase s t")
     (auto split: phase.splits option.splits if_splits)

lemma download_after_probe:
  assumes "step a s = Some s'" and "downloading (phase s' t) k" and "\<not> downloading (phase s t) k"
  shows "probing (phase s t) k"
  using assms
  by (cases a; cases "phase s t")
     (auto split: phase.splits option.splits if_splits)

lemma downloading_holds: "downloading p k \<Longrightarrow> holds p k"
  by (cases p) auto

text \<open>
  C9. In every state that the callers reach from the initial one, whatever the
  interleaving of their steps: no two callers hold the gate of one key, so no two are
  in the download of one key; a caller that waits on a channel does not hold the gate
  after its next step (it goes back to the head of the loop and reads the map again,
  or is cancelled); and a caller enters the download only from the place of the cache
  lookup.
\<close>

theorem single_flight:
  assumes "run as gate_init = Some s"
  shows "(\<forall>t t' k. holds (phase s t) k \<and> holds (phase s t') k \<longrightarrow> t = t') \<and>
         (\<forall>t t' k. downloading (phase s t) k \<and> downloading (phase s t') k \<longrightarrow> t = t') \<and>
         (\<forall>a s' t k. step a s = Some s' \<and> waiting (phase s t) \<longrightarrow> \<not> holds (phase s' t) k) \<and>
         (\<forall>a s' t k. step a s = Some s' \<and> downloading (phase s' t) k \<and>
                      \<not> downloading (phase s t) k \<longrightarrow> probing (phase s t) k)"
proof -
  from run_inv[OF gate_inv_init assms]
  have one: "\<forall>t t' k. holds (phase s t) k \<and> holds (phase s t') k \<longrightarrow> t = t'"
    by (simp add: gate_inv_def)
  then have "\<forall>t t' k. downloading (phase s t) k \<and> downloading (phase s t') k \<longrightarrow> t = t'"
    using downloading_holds by blast
  with one waiter_next download_after_probe show ?thesis by blast
qed

lemma race_run:
  "\<exists>s. run race gate_init = Some s \<and> phase s 0 = Idle \<and> phase s 1 = Downloading ''k'' 1"
  by (simp add: race_def gate_init_def set_phase_def)

theorem single_flight_witness:
  "\<exists>s. run race gate_init = Some s \<and> downloading (phase s 1) ''k'' \<and>
       \<not> downloading (phase s 0) ''k''"
proof -
  from race_run obtain s where r: "run race gate_init = Some s"
    and p: "phase s 0 = Idle" "phase s 1 = Downloading ''k'' 1"
    by blast
  from single_flight[OF r]
  have "downloading (phase s 0) ''k'' \<and> downloading (phase s 1) ''k'' \<longrightarrow> (0::nat) = 1"
    by blast
  with p have "\<not> downloading (phase s 0) ''k''" by simp
  with r p show ?thesis by auto
qed

end
